theory Spec2Isabelle
  imports Complex_Main "HOL-Library.AList"
begin

section \<open>Common values\<close>

text \<open>
  The exceptions the modelled code raises.  \<open>LeaseError\<close> is the \<open>AzureError\<close> that
  \<open>BlobContainerManager.acquire_lease\<close> raises itself, with the message "Failed to acquire
  lease"; \<open>AzureError\<close> is one raised by the storage client; \<open>BackendError\<close> stands for any
  exception escaping an index backend.
\<close>

datatype error =
    ValueError
  | TypeError
  | AttributeError
  | IndexError
  | ZeroDivisionError
  | ResourceNotFoundError
  | AzureError
  | LeaseError
  | BackendError

section \<open>Lexical index: \<open>utils/indexes/bm25_index_manager.py\<close>\<close>

text \<open>
  \<open>BM25Okapi\<close> (package \<open>rank_bm25\<close>) and the Janome tokenizer are libraries outside the
  repository.  The index object is modelled by what the manager hands to its constructor:
  the tokenized corpus and the two hyperparameters.  The constructor computes the average
  document length, dividing by the number of documents, and the average inverse document
  frequency, dividing by the number of distinct words: it raises \<open>ZeroDivisionError\<close> for
  a corpus without a document and for a corpus without a token.  The tokenizer \<open>tok\<close> and the
  ranking function \<open>sc\<close> are parameters of the model: \<open>sc corpus k1 b query doc\<close> is the score
  the library gives to the corpus document \<open>doc\<close>, and \<open>get_scores\<close> yields one score for each
  corpus document, in corpus order.  Python floats are read as reals.
\<close>

record bm25okapi =
  okapi_corpus :: "string list list"
  okapi_k1 :: real
  okapi_b :: real

type_synonym tokenizer = "string \<Rightarrow> string list"

type_synonym scorer = "string list list \<Rightarrow> real \<Rightarrow> real \<Rightarrow> string list \<Rightarrow> string list \<Rightarrow> real"

definition bm25okapi_init :: "string list list \<Rightarrow> real \<Rightarrow> real \<Rightarrow> error + bm25okapi" where
  "bm25okapi_init corpus k1' b' =
     (if corpus = [] then Inl ZeroDivisionError
      else if concat corpus = [] then Inl ZeroDivisionError
      else Inr \<lparr>okapi_corpus = corpus, okapi_k1 = k1', okapi_b = b'\<rparr>)"

definition get_scores :: "scorer \<Rightarrow> bm25okapi \<Rightarrow> string list \<Rightarrow> real list" where
  "get_scores sc ix q = map (sc (okapi_corpus ix) (okapi_k1 ix) (okapi_b ix) q) (okapi_corpus ix)"

text \<open>
  The manager's attributes.  \<open>__active_indices\<close> is created by \<open>__update_index\<close>, the only
  method that stores an index object; the code reads it only behind the test
  \<open>self.__index is None or ...\<close>, so the value it has while \<open>index\<close> is \<open>None\<close> is never read.
\<close>

record bm25_index_manager =
  k1 :: real
  b :: real
  index :: "bm25okapi option"
  docs :: "string list"
  deleted_flags :: "int set"
  active_indices :: "int list"

datatype documents = Doc string | Docs "string list"

datatype id_arg = Id int | Ids "int list"

definition doc_list :: "documents \<Rightarrow> string list" where
  "doc_list documents = (case documents of Doc s \<Rightarrow> [s] | Docs l \<Rightarrow> l)"

definition id_list :: "id_arg \<Rightarrow> int list" where
  "id_list ids = (case ids of Id i \<Rightarrow> [i] | Ids l \<Rightarrow> l)"

text \<open>
  \<open>__update_index\<close> builds the index object before it assigns anything: when the
  constructor raises, the exception leaves the method with the old index and the old active
  list in place.  A method returns the exception it raised, if any, and the manager as the
  call left it.
\<close>

definition update_index :: "tokenizer \<Rightarrow> bm25_index_manager \<Rightarrow> error option \<times> bm25_index_manager" where
  "update_index tok m =
     (let active_docs = map snd (filter (\<lambda>(i, doc). int i \<notin> deleted_flags m) (enumerate 0 (docs m)));
          tokenized_corpus = map tok active_docs
      in case bm25okapi_init tokenized_corpus (k1 m) (b m) of
           Inl e \<Rightarrow> (Some e, m)
         | Inr ix \<Rightarrow>
             (None,
              m\<lparr>index := Some ix,
                active_indices := filter (\<lambda>i. i \<notin> deleted_flags m) (map int [0..<length (docs m)])\<rparr>))"

text \<open>
  The constructor.  A \<open>BM25Okapi\<close> object is always truthy, so \<open>if index:\<close> is the test for an
  index argument; \<open>if docs:\<close> is false for \<open>None\<close> and for the empty list.  An exception in the
  constructor leaves no manager.
\<close>

definition bm25_init ::
  "tokenizer \<Rightarrow> bm25okapi option \<Rightarrow> string list option \<Rightarrow> int set option \<Rightarrow> real \<Rightarrow> real
     \<Rightarrow> error + bm25_index_manager" where
  "bm25_init tok ix ds fl k1' b' =
     (case ix of
        Some i \<Rightarrow>
          (case (ds, fl) of
             (Some d, Some f) \<Rightarrow>
               (case update_index tok
                       \<lparr>k1 = k1', b = b', index = Some i, docs = d, deleted_flags = f,
                        active_indices = []\<rparr> of
                  (Some e, m) \<Rightarrow> Inl e
                | (None, m) \<Rightarrow>
                    if d \<noteq> []
                    then (case update_index tok m of (Some e, m') \<Rightarrow> Inl e | (None, m') \<Rightarrow> Inr m')
                    else Inr m)
           | _ \<Rightarrow> Inl ValueError)
      | None \<Rightarrow>
          (let m = \<lparr>k1 = k1', b = b', index = None, docs = [], deleted_flags = {},
                    active_indices = []\<rparr>
           in if ds \<noteq> None \<and> ds \<noteq> Some []
              then (case update_index tok m of (Some e, m') \<Rightarrow> Inl e | (None, m') \<Rightarrow> Inr m')
              else Inr m))"

definition bm25_new :: bm25_index_manager where
  "bm25_new = \<lparr>k1 = 3/2, b = 3/4, index = None, docs = [], deleted_flags = {}, active_indices = []\<rparr>"

definition bm25_add ::
  "tokenizer \<Rightarrow> bm25_index_manager \<Rightarrow> documents \<Rightarrow> (error + int list) \<times> bm25_index_manager" where
  "bm25_add tok m documents =
     (let ds = doc_list documents;
          start_id = length (docs m);
          m1 = m\<lparr>docs := docs m @ ds\<rparr>;
          new_ids = map int [start_id..<length (docs m1)];
          m2 = (if index m1 = None \<or> length (active_indices m1) = 0
                then m1\<lparr>deleted_flags := {}\<rparr> else m1)
      in case update_index tok m2 of
           (Some e, m3) \<Rightarrow> (Inl e, m3)
         | (None, m3) \<Rightarrow> (Inr new_ids, m3))"

fun mark_deleted :: "nat \<Rightarrow> int set \<Rightarrow> int list \<Rightarrow> int set" where
  "mark_deleted n fl [] = fl"
| "mark_deleted n fl (i # is) =
     mark_deleted n (if 0 \<le> i \<and> i < int n then insert i fl else fl) is"

definition bm25_remove ::
  "tokenizer \<Rightarrow> bm25_index_manager \<Rightarrow> id_arg \<Rightarrow> error option \<times> bm25_index_manager" where
  "bm25_remove tok m ids =
     (if index m = None then (Some ValueError, m)
      else update_index tok
             (m\<lparr>deleted_flags := mark_deleted (length (docs m)) (deleted_flags m) (id_list ids)\<rparr>))"

fun unmark :: "int set \<Rightarrow> int list \<Rightarrow> int set" where
  "unmark fl [] = fl"
| "unmark fl (i # is) = unmark (if i \<in> fl then fl - {i} else fl) is"

definition bm25_unmark_deleted ::
  "tokenizer \<Rightarrow> bm25_index_manager \<Rightarrow> id_arg \<Rightarrow> error option \<times> bm25_index_manager" where
  "bm25_unmark_deleted tok m ids =
     (if index m = None then (Some ValueError, m)
      else update_index tok (m\<lparr>deleted_flags := unmark (deleted_flags m) (id_list ids)\<rparr>))"

text \<open>Python's slice \<open>xs[:k]\<close>: a negative \<open>k\<close> drops \<open>-k\<close> elements from the end.\<close>

definition py_take :: "int \<Rightarrow> 'a list \<Rightarrow> 'a list" where
  "py_take k xs = (if 0 \<le> k then take (nat k) xs else take (length xs - nat (- k)) xs)"

text \<open>\<open>[active[i] for i, _ in top_n]\<close>: an index past the end raises \<open>IndexError\<close>.\<close>

fun lookup_all :: "int list \<Rightarrow> nat list \<Rightarrow> error + int list" where
  "lookup_all active [] = Inr []"
| "lookup_all active (i # is) =
     (if i < length active
      then (case lookup_all active is of Inl e \<Rightarrow> Inl e | Inr r \<Rightarrow> Inr (active ! i # r))
      else Inl IndexError)"

text \<open>
  \<open>sorted(enumerate(doc_scores), key=lambda x: x[1], reverse=True)\<close> is a stable sort by
  descending score: elements with equal scores keep their order.  \<open>sort_key\<close> is a stable
  insertion sort, here on the negated score.
\<close>

definition top_n :: "int \<Rightarrow> real list \<Rightarrow> (nat \<times> real) list" where
  "top_n k doc_scores = py_take k (sort_key (\<lambda>x. - snd x) (enumerate 0 doc_scores))"

definition bm25_search ::
  "tokenizer \<Rightarrow> scorer \<Rightarrow> bm25_index_manager \<Rightarrow> string \<Rightarrow> int \<Rightarrow> error + (int list \<times> real list)" where
  "bm25_search tok sc m query k =
     (case index m of
        None \<Rightarrow> Inr ([], [])
      | Some ix \<Rightarrow>
          if length (active_indices m) = 0 then Inr ([], [])
          else (let tokenized_query = tok query;
                    doc_scores = get_scores sc ix tokenized_query;
                    top = top_n k doc_scores
                in case lookup_all (active_indices m) (map fst top) of
                     Inl e \<Rightarrow> Inl e
                   | Inr ids \<Rightarrow> Inr (ids, map snd top)))"

text \<open>
  \<open>export\<close> pickles a dictionary of five entries and \<open>load_from_byte\<close> unpickles it and
  calls the constructor.  The pickle codec is a parameter: \<open>dumps\<close> serializes the
  dictionary, \<open>loads\<close> reads it back or raises.
\<close>

record export_data =
  exp_index :: bm25okapi
  exp_docs :: "string list"
  exp_deleted_flags :: "int set"
  exp_k1 :: real
  exp_b :: real

definition bm25_export :: "(export_data \<Rightarrow> 'bytes) \<Rightarrow> bm25_index_manager \<Rightarrow> error + 'bytes" where
  "bm25_export dumps m =
     (case index m of
        None \<Rightarrow> Inl ValueError
      | Some ix \<Rightarrow> Inr (dumps \<lparr>exp_index = ix, exp_docs = docs m,
                                exp_deleted_flags = deleted_flags m, exp_k1 = k1 m, exp_b = b m\<rparr>))"

definition bm25_load_from_byte ::
  "('bytes \<Rightarrow> error + export_data) \<Rightarrow> tokenizer \<Rightarrow> 'bytes \<Rightarrow> error + bm25_index_manager" where
  "bm25_load_from_byte loads tok byte_data =
     (case loads byte_data of
        Inl e \<Rightarrow> Inl e
      | Inr data \<Rightarrow> bm25_init tok (Some (exp_index data)) (Some (exp_docs data))
                      (Some (exp_deleted_flags data)) (exp_k1 data) (exp_b data))"

subsection \<open>The state a successful rebuild leaves\<close>

text \<open>
  A manager is consistent when a rebuild from its documents, tombstones and hyperparameters
  succeeds and gives the index object and the active list it already has.  A rebuild that
  raises leaves a manager that is not consistent: its tombstones are newer than its index.
  \<open>active_corpus\<close> and \<open>active_positions\<close> are the corpus and the active list a rebuild
  computes; \<open>corpus_of\<close> is the tokenized text at the positions of the active list.
\<close>

definition active_corpus :: "tokenizer \<Rightarrow> bm25_index_manager \<Rightarrow> string list list" where
  "active_corpus tok m =
     map tok (map snd (filter (\<lambda>(i, doc). int i \<notin> deleted_flags m) (enumerate 0 (docs m))))"

definition active_positions :: "bm25_index_manager \<Rightarrow> int list" where
  "active_positions m = filter (\<lambda>i. i \<notin> deleted_flags m) (map int [0..<length (docs m)])"

definition consistent :: "tokenizer \<Rightarrow> bm25_index_manager \<Rightarrow> bool" where
  "consistent tok m \<longleftrightarrow> update_index tok m = (None, m)"

definition corpus_of :: "tokenizer \<Rightarrow> bm25_index_manager \<Rightarrow> string list list" where
  "corpus_of tok m = map (\<lambda>i. tok (docs m ! nat i)) (active_indices m)"

subsection \<open>Sample tokenizer, ranking function and managers\<close>

text \<open>
  A whitespace tokenizer and a ranking function that counts the query tokens occurring in a
  document, to run the model on concrete inputs.
\<close>

fun split_words :: "string \<Rightarrow> string \<Rightarrow> string list" where
  "split_words cur [] = (if cur = [] then [] else [cur])"
| "split_words cur (c # cs) =
     (if c = CHR '' '' then (if cur = [] then split_words [] cs else cur # split_words [] cs)
      else split_words (cur @ [c]) cs)"

definition words :: tokenizer where
  "words s = split_words [] s"

definition overlap :: scorer where
  "overlap corpus k1' b' q d = real (length (filter (\<lambda>t. t \<in> set d) q))"

text \<open>
  The managers that the calls \<open>add("cat")\<close> and then \<open>remove(0)\<close> leave, starting from a new
  manager: the \<open>remove\<close> raises in the rebuild, with position 0 already tombstoned.
\<close>

definition cat_only :: bm25_index_manager where
  "cat_only =
     \<lparr>k1 = 3/2, b = 3/4,
      index = Some \<lparr>okapi_corpus = [[''cat'']], okapi_k1 = 3/2, okapi_b = 3/4\<rparr>,
      docs = [''cat''], deleted_flags = {}, active_indices = [0]\<rparr>"

definition cat_tombstoned :: bm25_index_manager where
  "cat_tombstoned = cat_only\<lparr>deleted_flags := {0}\<rparr>"

text \<open>
  The managers that \<open>add(["cat", "dog"])\<close>, \<open>remove(0)\<close> and \<open>remove(1)\<close> leave in turn: the
  second \<open>remove\<close> raises in the rebuild.
\<close>

definition cat_dog :: bm25_index_manager where
  "cat_dog =
     \<lparr>k1 = 3/2, b = 3/4,
      index = Some \<lparr>okapi_corpus = [[''cat''], [''dog'']], okapi_k1 = 3/2, okapi_b = 3/4\<rparr>,
      docs = [''cat'', ''dog''], deleted_flags = {}, active_indices = [0, 1]\<rparr>"

definition dog_only :: bm25_index_manager where
  "dog_only =
     \<lparr>k1 = 3/2, b = 3/4,
      index = Some \<lparr>okapi_corpus = [[''dog'']], okapi_k1 = 3/2, okapi_b = 3/4\<rparr>,
      docs = [''cat'', ''dog''], deleted_flags = {0}, active_indices = [1]\<rparr>"

definition both_tombstoned :: bm25_index_manager where
  "both_tombstoned = dog_only\<lparr>deleted_flags := {0, 1}\<rparr>"

definition scenario_a_docs :: "string list" where
  "scenario_a_docs = [''the cat sat on the mat'', ''the dog ran in the park'']"

definition scenario_a_manager :: "tokenizer \<Rightarrow> bm25_index_manager" where
  "scenario_a_manager tok =
     \<lparr>k1 = 3/2, b = 3/4,
      index = Some \<lparr>okapi_corpus = map tok scenario_a_docs, okapi_k1 = 3/2, okapi_b = 3/4\<rparr>,
      docs = scenario_a_docs, deleted_flags = {}, active_indices = [0, 1]\<rparr>"

section \<open>Identity and mapping layer: \<open>utils/mapping\<close>\<close>

text \<open>
  Both mapping classes keep their state in one JSON blob each and read and write it through
  \<open>BlobManager\<close>.  A blob is modelled by what a read of it yields: no blob
  (\<open>ResourceNotFoundError\<close>), empty data, data that is not JSON (\<open>JSONDecodeError\<close>), or the
  parsed JSON object.  Reads and uploads are taken to complete; the transfer itself is the
  storage client's business.
\<close>

datatype 'a stored = NotFound | EmptyData | Undecodable | Parsed 'a

text \<open>Python's \<open>str\<close> of an integer: decimal digits, with a minus sign for negative numbers.\<close>

definition digit_char :: "nat \<Rightarrow> char" where
  "digit_char d =
     (if d = 0 then CHR ''0'' else if d = 1 then CHR ''1'' else if d = 2 then CHR ''2''
      else if d = 3 then CHR ''3'' else if d = 4 then CHR ''4'' else if d = 5 then CHR ''5''
      else if d = 6 then CHR ''6'' else if d = 7 then CHR ''7'' else if d = 8 then CHR ''8''
      else CHR ''9'')"

fun digits :: "nat \<Rightarrow> string" where
  "digits n = (if n < 10 then [digit_char n] else digits (n div 10) @ [digit_char (n mod 10)])"

definition str_int :: "int \<Rightarrow> string" where
  "str_int i = (if i < 0 then CHR ''-'' # digits (nat (- i)) else digits (nat i))"

subsection \<open>\<open>ChunkIndexMapping\<close>: chunk id allocator and backend-id map\<close>

text \<open>
  Dictionaries are association lists in insertion order: assigning to an existing key keeps
  its place (\<open>AList.update\<close>), \<open>del\<close> removes the entry (\<open>AList.delete\<close>).  \<open>cim_storage\<close> is
  the persisted blob; \<open>id_counter\<close> and \<open>id_map\<close> are the attributes of the object.
\<close>

type_synonym index_ids = "(string \<times> int) list"

type_synonym id_map = "(string \<times> index_ids) list"

record index_json =
  json_id_counter :: "int option"
  json_id_map :: "id_map option"

record chunk_index_mapping =
  cim_storage :: "index_json stored"
  id_counter :: int
  id_map :: id_map

definition cim_save_to_storage :: "chunk_index_mapping \<Rightarrow> chunk_index_mapping" where
  "cim_save_to_storage s =
     s\<lparr>cim_storage := Parsed \<lparr>json_id_counter = Some (id_counter s), json_id_map = Some (id_map s)\<rparr>\<rparr>"

definition cim_load_from_storage :: "chunk_index_mapping \<Rightarrow> chunk_index_mapping" where
  "cim_load_from_storage s =
     (case cim_storage s of
        Parsed json_data \<Rightarrow>
          s\<lparr>id_counter := (case json_id_counter json_data of None \<Rightarrow> 0 | Some c \<Rightarrow> c),
            id_map := (case json_id_map json_data of None \<Rightarrow> [] | Some m \<Rightarrow> m)\<rparr>
      | _ \<Rightarrow> cim_save_to_storage (s\<lparr>id_counter := 0, id_map := []\<rparr>))"

definition cim_init :: "index_json stored \<Rightarrow> chunk_index_mapping" where
  "cim_init st = cim_load_from_storage \<lparr>cim_storage = st, id_counter = 0, id_map = []\<rparr>"

definition get_new_id :: "chunk_index_mapping \<Rightarrow> string \<times> chunk_index_mapping" where
  "get_new_id s =
     (let s1 = cim_load_from_storage s;
          new_id = str_int (id_counter s1);
          s2 = s1\<lparr>id_counter := id_counter s1 + 1\<rparr>
      in (new_id, cim_save_to_storage s2))"

definition cim_add_mapping :: "chunk_index_mapping \<Rightarrow> string \<Rightarrow> index_ids \<Rightarrow> chunk_index_mapping" where
  "cim_add_mapping s chunk_id ids =
     (let s1 = cim_load_from_storage s
      in cim_save_to_storage (s1\<lparr>id_map := AList.update chunk_id ids (id_map s1)\<rparr>))"

definition cim_remove_mapping :: "chunk_index_mapping \<Rightarrow> string \<Rightarrow> chunk_index_mapping" where
  "cim_remove_mapping s chunk_id =
     (let s1 = cim_load_from_storage s
      in if chunk_id \<in> fst ` set (id_map s1)
         then cim_save_to_storage (s1\<lparr>id_map := AList.delete chunk_id (id_map s1)\<rparr>)
         else s1)"

definition get_index_ids :: "chunk_index_mapping \<Rightarrow> string \<Rightarrow> index_ids option \<times> chunk_index_mapping" where
  "get_index_ids s chunk_id =
     (let s1 = cim_load_from_storage s in (map_of (id_map s1) chunk_id, s1))"

text \<open>
  A history of calls on the allocator: the three mutating methods, and \<open>Restart\<close>, a new
  process constructing the object again over the same blob.  \<open>run_ops\<close> collects the ids
  that \<open>get_new_id\<close> returned, in order.
\<close>

datatype cim_op = GetNewId | AddMapping string index_ids | RemoveMapping string | Restart

fun run_ops :: "chunk_index_mapping \<Rightarrow> cim_op list \<Rightarrow> string list \<times> chunk_index_mapping" where
  "run_ops s [] = ([], s)"
| "run_ops s (GetNewId # ops) =
     (let (i, s1) = get_new_id s; (is, s2) = run_ops s1 ops in (i # is, s2))"
| "run_ops s (AddMapping c ids # ops) = run_ops (cim_add_mapping s c ids) ops"
| "run_ops s (RemoveMapping c # ops) = run_ops (cim_remove_mapping s c) ops"
| "run_ops s (Restart # ops) = run_ops (cim_init (cim_storage s)) ops"

definition stored_counter :: "index_json stored \<Rightarrow> int" where
  "stored_counter st =
     (case st of Parsed j \<Rightarrow> (case json_id_counter j of None \<Rightarrow> 0 | Some c \<Rightarrow> c) | _ \<Rightarrow> 0)"

subsection \<open>\<open>ChunkBlobMapping\<close>: source map and reverse index\<close>

record blob_info =
  container :: string
  blob :: string

type_synonym blob_mapping = "(string \<times> blob_info) list"

record chunk_blob_mapping =
  cbm_storage :: "blob_mapping stored"
  mapping :: blob_mapping
  reverse_mapping :: "string \<rightharpoonup> string list"

text \<open>The reverse index is keyed by the string \<open>f"{container}:{blob}"\<close>.\<close>

definition reverse_key :: "string \<Rightarrow> string \<Rightarrow> string" where
  "reverse_key c n = c @ '':'' @ n"

fun reverse_loop :: "blob_mapping \<Rightarrow> (string \<rightharpoonup> string list) \<Rightarrow> (string \<rightharpoonup> string list)" where
  "reverse_loop [] r = r"
| "reverse_loop ((chunk_id, info) # rest) r =
     (let key = reverse_key (container info) (blob info);
          r1 = (case r key of None \<Rightarrow> r(key \<mapsto> []) | Some l \<Rightarrow> r);
          r2 = (case r1 key of None \<Rightarrow> r1 | Some l \<Rightarrow> r1(key \<mapsto> l @ [chunk_id]))
      in reverse_loop rest r2)"

definition update_reverse_mapping :: "chunk_blob_mapping \<Rightarrow> chunk_blob_mapping" where
  "update_reverse_mapping s = s\<lparr>reverse_mapping := reverse_loop (mapping s) Map.empty\<rparr>"

definition cbm_save_to_storage :: "chunk_blob_mapping \<Rightarrow> chunk_blob_mapping" where
  "cbm_save_to_storage s = s\<lparr>cbm_storage := Parsed (mapping s)\<rparr>"

definition cbm_load_from_storage :: "chunk_blob_mapping \<Rightarrow> chunk_blob_mapping" where
  "cbm_load_from_storage s =
     (case cbm_storage s of
        Parsed json_data \<Rightarrow> update_reverse_mapping (s\<lparr>mapping := json_data\<rparr>)
      | EmptyData \<Rightarrow> s\<lparr>mapping := [], reverse_mapping := Map.empty\<rparr>
      | _ \<Rightarrow> cbm_save_to_storage (s\<lparr>mapping := [], reverse_mapping := Map.empty\<rparr>))"

definition cbm_init :: "blob_mapping stored \<Rightarrow> chunk_blob_mapping" where
  "cbm_init st = cbm_load_from_storage \<lparr>cbm_storage = st, mapping = [], reverse_mapping = Map.empty\<rparr>"

definition cbm_add_mapping :: "chunk_blob_mapping \<Rightarrow> string \<Rightarrow> string \<Rightarrow> string \<Rightarrow> chunk_blob_mapping" where
  "cbm_add_mapping s chunk_id blob_container blob_name =
     cbm_save_to_storage (update_reverse_mapping
       (s\<lparr>mapping := AList.update chunk_id \<lparr>container = blob_container, blob = blob_name\<rparr> (mapping s)\<rparr>))"

definition cbm_remove_mapping :: "chunk_blob_mapping \<Rightarrow> string \<Rightarrow> chunk_blob_mapping" where
  "cbm_remove_mapping s chunk_id =
     (if chunk_id \<in> fst ` set (mapping s)
      then cbm_save_to_storage (update_reverse_mapping (s\<lparr>mapping := AList.delete chunk_id (mapping s)\<rparr>))
      else s)"

definition get_blob_info :: "chunk_blob_mapping \<Rightarrow> string \<Rightarrow> blob_info option" where
  "get_blob_info s chunk_id = map_of (mapping s) chunk_id"

definition get_chunk_ids_by_blob :: "chunk_blob_mapping \<Rightarrow> string \<Rightarrow> string \<Rightarrow> string list" where
  "get_chunk_ids_by_blob s container_name blob_name =
     (case reverse_mapping s (reverse_key container_name blob_name) of None \<Rightarrow> [] | Some l \<Rightarrow> l)"

text \<open>
  The grouping the reverse index is specified to be: for each key, the chunk ids of the
  forward map whose source has that key, in forward-map order; keys without a chunk are
  absent.
\<close>

definition grouped :: "blob_mapping \<Rightarrow> string \<Rightarrow> string list" where
  "grouped fwd key =
     map fst (filter (\<lambda>(chunk_id, info). reverse_key (container info) (blob info) = key) fwd)"

definition grouping :: "blob_mapping \<Rightarrow> (string \<rightharpoonup> string list)" where
  "grouping fwd = (\<lambda>key. if grouped fwd key = [] then None else Some (grouped fwd key))"

text \<open>
  Container names without a colon (Azure container names have none): for them the key
  determines the pair of container and blob name.
\<close>

definition colon_free :: "blob_mapping \<Rightarrow> bool" where
  "colon_free fwd \<longleftrightarrow> list_all (\<lambda>(chunk_id, info). CHR '':'' \<notin> set (container info)) fwd"

definition reverse_in_sync :: "chunk_blob_mapping \<Rightarrow> bool" where
  "reverse_in_sync s \<longleftrightarrow> reverse_mapping s = grouping (mapping s)"

subsection \<open>\<open>ChunkMappingManager\<close>\<close>

text \<open>
  The registered searchers (\<open>KeywordSearch\<close>, \<open>VectorSearch\<close>) are a dictionary from index name
  to backend.  What a backend does on \<open>add\<close> and \<open>remove\<close> is a parameter: \<open>badd\<close> returns the
  ids the backend assigned or the exception it raised, \<open>brem\<close> returns the exception it raised,
  if any; both return the backend's new state.  The outcomes of the two \<open>acquire_lease\<close>
  calls are inputs (\<open>None\<close>: the lease was acquired).  \<open>remove\<close> also yields the backend calls
  it made, in order, each with its outcome.
\<close>

type_synonym 'b backend_add = "string \<Rightarrow> 'b \<Rightarrow> string \<Rightarrow> (error + int list) \<times> 'b"

type_synonym 'b backend_remove = "string \<Rightarrow> 'b \<Rightarrow> int \<Rightarrow> error option \<times> 'b"

record 'b chunk_mapping_manager =
  searchers :: "(string \<times> 'b) list"
  chunk_id_mapping_manager :: chunk_index_mapping
  chunk_blob_mapping_manager :: chunk_blob_mapping

definition cmm_init ::
  "(string \<times> 'b) list \<Rightarrow> index_json stored \<Rightarrow> blob_mapping stored \<Rightarrow> 'b chunk_mapping_manager" where
  "cmm_init srch index_file blob_file =
     \<lparr>searchers = srch, chunk_id_mapping_manager = cim_init index_file,
      chunk_blob_mapping_manager = cbm_init blob_file\<rparr>"

fun add_to_searchers ::
  "'b backend_add \<Rightarrow> (string \<times> 'b) list \<Rightarrow> string \<Rightarrow> index_ids
     \<Rightarrow> (error + index_ids) \<times> (string \<times> 'b) list" where
  "add_to_searchers badd [] text index_ids = (Inr index_ids, [])"
| "add_to_searchers badd ((index_name, index_manager) # rest) text index_ids =
     (case badd index_name index_manager text of
        (Inl e, mgr') \<Rightarrow> (Inl e, (index_name, mgr') # rest)
      | (Inr [], mgr') \<Rightarrow> (Inl IndexError, (index_name, mgr') # rest)
      | (Inr (index_id # _), mgr') \<Rightarrow>
          (case add_to_searchers badd rest text (AList.update index_name index_id index_ids) of
             (res, rest') \<Rightarrow> (res, (index_name, mgr') # rest')))"

fun add_texts ::
  "'b backend_add \<Rightarrow> 'b chunk_mapping_manager \<Rightarrow> string \<Rightarrow> string \<Rightarrow> string list
     \<Rightarrow> (string \<times> string) list
     \<Rightarrow> (error + (string \<times> string) list) \<times> 'b chunk_mapping_manager" where
  "add_texts badd s blob_container blob_name [] added_chunks = (Inr added_chunks, s)"
| "add_texts badd s blob_container blob_name (text # texts) added_chunks =
     (case get_new_id (chunk_id_mapping_manager s) of
        (chunk_id, im1) \<Rightarrow>
          (case add_to_searchers badd (searchers s) text [] of
             (Inl e, srch) \<Rightarrow> (Inl e, s\<lparr>searchers := srch, chunk_id_mapping_manager := im1\<rparr>)
           | (Inr index_ids, srch) \<Rightarrow>
               add_texts badd
                 (s\<lparr>searchers := srch,
                    chunk_id_mapping_manager := cim_add_mapping im1 chunk_id index_ids,
                    chunk_blob_mapping_manager :=
                      cbm_add_mapping (chunk_blob_mapping_manager s) chunk_id blob_container blob_name\<rparr>)
                 blob_container blob_name texts (added_chunks @ [(chunk_id, text)])))"

definition cmm_add ::
  "error option \<Rightarrow> error option \<Rightarrow> 'b backend_add \<Rightarrow> 'b chunk_mapping_manager \<Rightarrow> string \<Rightarrow> string
     \<Rightarrow> string list \<Rightarrow> (error + (string \<times> string) list) \<times> 'b chunk_mapping_manager" where
  "cmm_add index_lease blob_lease badd s blob_container blob_name texts =
     (case index_lease of
        Some e \<Rightarrow> (Inl e, s)
      | None \<Rightarrow>
          (case blob_lease of
             Some e \<Rightarrow> (Inl e, s)
           | None \<Rightarrow> add_texts badd s blob_container blob_name texts []))"

fun remove_from_searchers ::
  "'b backend_remove \<Rightarrow> (string \<times> 'b) list \<Rightarrow> index_ids
     \<Rightarrow> (string \<times> 'b) list \<times> (string \<times> int \<times> error option) list" where
  "remove_from_searchers brem [] index_ids = ([], [])"
| "remove_from_searchers brem ((index_name, index_manager) # rest) index_ids =
     (case remove_from_searchers brem rest index_ids of
        (rest', calls) \<Rightarrow>
          (case map_of index_ids index_name of
             None \<Rightarrow> ((index_name, index_manager) # rest', calls)
           | Some index_id \<Rightarrow>
               (case brem index_name index_manager index_id of
                  (outcome, mgr') \<Rightarrow>
                    ((index_name, mgr') # rest', (index_name, index_id, outcome) # calls))))"

definition cmm_remove ::
  "error option \<Rightarrow> error option \<Rightarrow> 'b backend_remove \<Rightarrow> 'b chunk_mapping_manager \<Rightarrow> string
     \<Rightarrow> (error + unit) \<times> 'b chunk_mapping_manager \<times> (string \<times> int \<times> error option) list" where
  "cmm_remove index_lease blob_lease brem s chunk_id =
     (case index_lease of
        Some e \<Rightarrow> (Inl e, s, [])
      | None \<Rightarrow>
          (case blob_lease of
             Some e \<Rightarrow> (Inl e, s, [])
           | None \<Rightarrow>
               (case get_index_ids (chunk_id_mapping_manager s) chunk_id of
                  (index_ids, im1) \<Rightarrow>
                    (case (case index_ids of
                             None \<Rightarrow> (searchers s, [])
                           | Some ids \<Rightarrow> if ids = [] then (searchers s, [])
                                         else remove_from_searchers brem (searchers s) ids) of
                       (srch, calls) \<Rightarrow>
                         (Inr (),
                          s\<lparr>searchers := srch,
                            chunk_id_mapping_manager := cim_remove_mapping im1 chunk_id,
                            chunk_blob_mapping_manager :=
                              cbm_remove_mapping (chunk_blob_mapping_manager s) chunk_id\<rparr>,
                          calls)))))"

text \<open>What the two persisted blobs hold, and the objects that agree with their blob.\<close>

definition stored_id_map :: "index_json stored \<Rightarrow> id_map" where
  "stored_id_map st =
     (case st of Parsed j \<Rightarrow> (case json_id_map j of None \<Rightarrow> [] | Some m \<Rightarrow> m) | _ \<Rightarrow> [])"

definition stored_mapping :: "blob_mapping stored \<Rightarrow> blob_mapping" where
  "stored_mapping st = (case st of Parsed j \<Rightarrow> j | _ \<Rightarrow> [])"

definition persisted_in_sync :: "chunk_blob_mapping \<Rightarrow> bool" where
  "persisted_in_sync s \<longleftrightarrow> stored_mapping (cbm_storage s) = mapping s"

definition registered_ids :: "'b chunk_mapping_manager \<Rightarrow> string \<Rightarrow> index_ids" where
  "registered_ids s chunk_id =
     (case map_of (stored_id_map (cim_storage (chunk_id_mapping_manager s))) chunk_id of
        None \<Rightarrow> [] | Some ids \<Rightarrow> ids)"

text \<open>Backends whose \<open>add\<close> always succeeds with at least one id.\<close>

definition backends_accept :: "'b backend_add \<Rightarrow> bool" where
  "backends_accept badd \<longleftrightarrow>
     (\<forall>index_name mgr text. \<exists>index_id more mgr'. badd index_name mgr text = (Inr (index_id # more), mgr'))"

subsection \<open>Sample managers and backends\<close>

definition failing_keyword :: "unit backend_remove" where
  "failing_keyword index_name mgr index_id =
     (if index_name = ''keyword'' then Some BackendError else None, mgr)"

definition two_backends :: "(string \<times> unit) list" where
  "two_backends = [(''keyword'', ()), (''vector'', ())]"

definition one_chunk :: "unit chunk_mapping_manager" where
  "one_chunk =
     \<lparr>searchers = two_backends,
      chunk_id_mapping_manager =
        \<lparr>cim_storage = Parsed \<lparr>json_id_counter = Some 1,
                                json_id_map = Some [(''0'', [(''keyword'', 0), (''vector'', 0)])]\<rparr>,
         id_counter = 1,
         id_map = [(''0'', [(''keyword'', 0), (''vector'', 0)])]\<rparr>,
      chunk_blob_mapping_manager =
        \<lparr>cbm_storage = Parsed [(''0'', \<lparr>container = ''docs'', blob = ''a.pdf''\<rparr>)],
         mapping = [(''0'', \<lparr>container = ''docs'', blob = ''a.pdf''\<rparr>)],
         reverse_mapping = [''docs:a.pdf'' \<mapsto> [''0'']]\<rparr>\<rparr>"

definition no_chunk :: "unit chunk_mapping_manager" where
  "no_chunk =
     \<lparr>searchers = two_backends,
      chunk_id_mapping_manager =
        \<lparr>cim_storage = Parsed \<lparr>json_id_counter = Some 1, json_id_map = Some []\<rparr>,
         id_counter = 1, id_map = []\<rparr>,
      chunk_blob_mapping_manager =
        \<lparr>cbm_storage = Parsed [], mapping = [], reverse_mapping = Map.empty\<rparr>\<rparr>"

definition accepting_backend :: "unit backend_add" where
  "accepting_backend index_name mgr text = (Inr [7], mgr)"

section \<open>Lease lock: \<open>BlobContainerManager.acquire_lease\<close>\<close>

text \<open>
  The store is an environment the loop observes once per attempt: the resource carries an
  active lease (\<open>lease.state == "leased"\<close>), or it does not and
  \<open>BlobLeaseManager.acquire_lease\<close> returns a lease id, returns nothing, or raises.  \<open>client\<close>
  is the outcome of \<open>get_client\<close>.  Besides its result and the lease registry, the model
  yields the trace of property reads and \<open>time.sleep\<close> calls.  \<open>range(max_retries)\<close> runs
  \<open>nat max_retries\<close> times, the last argument of \<open>lease_attempts\<close>.
\<close>

datatype lease_observation = Leased | Free "string option" | AcquireRaises

datatype lease_event = GetProperties nat | Sleep int

fun lease_attempts ::
  "(nat \<Rightarrow> lease_observation) \<Rightarrow> int \<Rightarrow> int \<Rightarrow> nat \<Rightarrow> nat
     \<Rightarrow> (error + string) \<times> lease_event list" where
  "lease_attempts env max_retries retry_delay attempt 0 = (Inl LeaseError, [])"
| "lease_attempts env max_retries retry_delay attempt (Suc remaining) =
     (case env attempt of
        Free (Some lease_id) \<Rightarrow> (Inr lease_id, [GetProperties attempt])
      | AcquireRaises \<Rightarrow> (Inl AzureError, [GetProperties attempt])
      | _ \<Rightarrow>
          (case lease_attempts env max_retries retry_delay (Suc attempt) remaining of
             (result, events) \<Rightarrow>
               (result,
                GetProperties attempt
                  # (if int attempt < max_retries - 1 then [Sleep retry_delay] else []) @ events)))"

definition acquire_lease ::
  "error + unit \<Rightarrow> (nat \<Rightarrow> lease_observation) \<Rightarrow> (string \<rightharpoonup> string) \<Rightarrow> string \<Rightarrow> int \<Rightarrow> int
     \<Rightarrow> (error + string) \<times> (string \<rightharpoonup> string) \<times> lease_event list" where
  "acquire_lease client env leases key max_retries retry_delay =
     (case client of
        Inl e \<Rightarrow> (Inl e, leases, [])
      | Inr _ \<Rightarrow>
          (case lease_attempts env max_retries retry_delay 0 (nat max_retries) of
             (Inr lease_id, events) \<Rightarrow> (Inr lease_id, leases(key \<mapsto> lease_id), events)
           | (Inl e, events) \<Rightarrow> (Inl e, leases, events)))"

text \<open>The attempts made and the waits slept in a trace.\<close>

definition probes :: "lease_event list \<Rightarrow> nat" where
  "probes events = length (filter (\<lambda>e. case e of GetProperties _ \<Rightarrow> True | Sleep _ \<Rightarrow> False) events)"

definition waits :: "lease_event list \<Rightarrow> int list" where
  "waits events = concat (map (\<lambda>e. case e of GetProperties _ \<Rightarrow> [] | Sleep d \<Rightarrow> [d]) events)"

text \<open>
  The trace of a call with the default budget against a resource that stays leased:
  twelve attempts, a wait of 5 after each but the last.
\<close>

definition contended_trace :: "lease_event list" where
  "contended_trace = concat (map (\<lambda>i. [GetProperties i, Sleep 5]) [0..<11]) @ [GetProperties 11]"

definition always_leased :: "nat \<Rightarrow> lease_observation" where
  "always_leased attempt = Leased"

definition released_at_third :: "nat \<Rightarrow> lease_observation" where
  "released_at_third attempt = (if attempt < 2 then Leased else Free (Some ''lease-1''))"

section \<open>Vector index: \<open>utils/indexes/voyager_index_manager.py\<close>\<close>

text \<open>
  \<open>voyager.Index\<close> is a library class; it is modelled by its space, its dimensionality, the
  vectors added and the ids marked deleted.  The class defines \<open>__len__\<close>, the number of
  vectors added, those marked deleted included (the \<open>stats\<close> property calls \<open>len\<close> on it), and
  no \<open>__bool__\<close>, so the constructor's test \<open>if index:\<close> is false for \<open>None\<close> and for an index
  of length 0.  A member of the \<open>Space\<close> enumeration is truthy.  The library's constructor
  \<open>Index(space, num_dimensions=...)\<close> and \<open>Index.load\<close> are parameters: \<open>mk\<close> builds an
  index or raises (it rejects a dimensionality that is no C integer), \<open>load\<close> reads an index
  or raises.  \<open>vim_ndims\<close> is \<open>None\<close> while the attribute \<open>__ndims\<close> has not been assigned.
\<close>

datatype space = Euclidean | InnerProduct | Cosine

definition space_map :: "string \<Rightarrow> space option" where
  "space_map space_type =
     (if space_type = ''euclidean'' then Some Euclidean
      else if space_type = ''innerproduct'' then Some InnerProduct
      else if space_type = ''cosine'' then Some Cosine
      else None)"

record voyager_index =
  idx_space :: space
  idx_num_dimensions :: int
  idx_vectors :: "real list list"
  idx_deleted :: "nat set"

definition index_len :: "voyager_index \<Rightarrow> nat" where
  "index_len ix = length (idx_vectors ix)"

record voyager_index_manager =
  vim_space :: space
  vim_index :: voyager_index
  vim_ndims :: "int option"

definition voyager_init ::
  "(space \<Rightarrow> int \<Rightarrow> error + voyager_index) \<Rightarrow> voyager_index option \<Rightarrow> int \<Rightarrow> string
     \<Rightarrow> error + voyager_index_manager" where
  "voyager_init mk ix ndims space_type =
     (case space_map space_type of
        None \<Rightarrow> Inl ValueError
      | Some sp \<Rightarrow>
          (let fresh = (case mk sp ndims of
                          Inl e \<Rightarrow> Inl e
                        | Inr new_index \<Rightarrow>
                            Inr \<lparr>vim_space = sp, vim_index = new_index, vim_ndims = Some ndims\<rparr>)
           in case ix of
                None \<Rightarrow> fresh
              | Some i \<Rightarrow>
                  if index_len i \<noteq> 0
                  then Inr \<lparr>vim_space = sp, vim_index = i, vim_ndims = None\<rparr>
                  else fresh))"

definition voyager_load_from_byte ::
  "(space \<Rightarrow> int \<Rightarrow> error + voyager_index) \<Rightarrow> ('bytes \<Rightarrow> error + voyager_index) \<Rightarrow> 'bytes
     \<Rightarrow> error + voyager_index_manager" where
  "voyager_load_from_byte mk load byte_data =
     (case load byte_data of
        Inl e \<Rightarrow> Inl e
      | Inr loaded_index \<Rightarrow> voyager_init mk (Some loaded_index) 3072 ''cosine'')"

definition voyager_load_from_file ::
  "(space \<Rightarrow> int \<Rightarrow> error + voyager_index) \<Rightarrow> (string \<Rightarrow> error + voyager_index) \<Rightarrow> string
     \<Rightarrow> error + voyager_index_manager" where
  "voyager_load_from_file mk load file_path =
     (case load file_path of
        Inl e \<Rightarrow> Inl e
      | Inr loaded_index \<Rightarrow> voyager_init mk (Some loaded_index) 3072 ''cosine'')"

record voyager_stats =
  num_vectors :: nat
  num_dimensions :: int
  space_type :: space

definition stats :: "voyager_index_manager \<Rightarrow> error + voyager_stats" where
  "stats m =
     (case vim_ndims m of
        None \<Rightarrow> Inl AttributeError
      | Some nd \<Rightarrow> Inr \<lparr>num_vectors = index_len (vim_index m), num_dimensions = nd,
                         space_type = vim_space m\<rparr>)"

text \<open>
  Sample indexes: a new index of three dimensions, as \<open>Index(Space.Cosine, num_dimensions=3)\<close>
  returns it, the same index after one vector was added, and after that vector was marked
  deleted.
\<close>

definition empty_index :: voyager_index where
  "empty_index =
     \<lparr>idx_space = Cosine, idx_num_dimensions = 3, idx_vectors = [], idx_deleted = {}\<rparr>"

definition one_vector_index :: voyager_index where
  "one_vector_index =
     \<lparr>idx_space = Cosine, idx_num_dimensions = 3, idx_vectors = [[1, 0, 0]], idx_deleted = {}\<rparr>"

definition deleted_vector_index :: voyager_index where
  "deleted_vector_index = one_vector_index\<lparr>idx_deleted := {0}\<rparr>"

section \<open>Lexical index: list facts\<close>

text \<open>
  Facts about the comprehension over \<open>enumerate\<close>, the slice and the stable sort that the
  properties of the manager rest on.
\<close>

lemma active_docs_eq_aux:
  "map snd (filter (\<lambda>(i, doc). int i \<notin> D) (enumerate n ds))
   = map (\<lambda>i. ds ! (nat i - n)) (filter (\<lambda>i. i \<notin> D) (map int [n..<n + length ds]))"
proof (induction ds arbitrary: n)
  case Nil
  then show ?case by simp
next
  case (Cons d ds)
  have "[n..<n + length (d # ds)] = n # [Suc n..<Suc n + length ds]"
    by (simp add: upt_rec)
  moreover have "map (\<lambda>i. (d # ds) ! (nat i - n)) (filter (\<lambda>i. i \<notin> D) (map int [Suc n..<Suc n + length ds]))
      = map (\<lambda>i. ds ! (nat i - Suc n)) (filter (\<lambda>i. i \<notin> D) (map int [Suc n..<Suc n + length ds]))"
    by (rule map_cong) (auto simp: Suc_diff_le)
  ultimately show ?case using Cons.IH[of "Suc n"] by simp
qed

lemma active_docs_eq:
  "map snd (filter (\<lambda>(i, doc). int i \<notin> D) (enumerate 0 ds))
   = map (\<lambda>i. ds ! nat i) (filter (\<lambda>i. i \<notin> D) (map int [0..<length ds]))"
  using active_docs_eq_aux[of D 0 ds] by simp

lemma lookup_all_in_range:
  "\<forall>i\<in>set is. i < length a \<Longrightarrow> lookup_all a is = Inr (map (\<lambda>i. a ! i) is)"
  by (induction "is") simp_all

lemma py_take_eq_take:
  "py_take k xs = take (if 0 \<le> k then nat k else length xs - nat (- k)) xs"
  by (simp add: py_take_def)

lemma py_take_subset: "set (py_take k xs) \<subseteq> set xs"
  by (auto simp: py_take_def dest: in_set_takeD)

lemma top_n_subset: "set (top_n k s) \<subseteq> set (enumerate 0 s)"
  unfolding top_n_def using py_take_subset[of k "sort_key (\<lambda>x. - snd x) (enumerate 0 s)"] by simp

lemma top_n_fst_bound: "p \<in> set (top_n k s) \<Longrightarrow> fst p < length s \<and> snd p = s ! fst p"
  using top_n_subset[of k s] by (auto simp: in_set_enumerate_eq)

lemma top_n_length: "0 \<le> k \<Longrightarrow> length (top_n k s) = min (nat k) (length s)"
  by (simp add: top_n_def py_take_def)

lemma top_n_sorted: "sorted (map (\<lambda>x. - snd x) (top_n k s))"
  by (simp add: top_n_def py_take_def take_map[symmetric] del: take_map)

lemma filtered_order_nth:
  "sorted_wrt R (filter P xs) \<Longrightarrow> i < j \<Longrightarrow> j < length xs \<Longrightarrow> P (xs ! i) \<Longrightarrow> P (xs ! j)
     \<Longrightarrow> R (xs ! i) (xs ! j)"
proof (induction xs arbitrary: i j)
  case Nil
  then show ?case by simp
next
  case (Cons x xs)
  obtain j' where j: "j = Suc j'" using Cons.prems(2) by (cases j) auto
  show ?case
  proof (cases i)
    case 0
    have "xs ! j' \<in> set (filter P xs)" using Cons.prems j by simp
    then show ?thesis using Cons.prems 0 j by simp
  next
    case (Suc i')
    have "sorted_wrt R (filter P xs)" using Cons.prems(1) by (simp split: if_splits)
    then show ?thesis using Cons.IH[of i' j'] Cons.prems Suc j by simp
  qed
qed

lemma enumerate_fst_increasing: "sorted_wrt (\<lambda>x y. fst x < fst y) (enumerate n s)"
  using sorted_wrt_map[of "(<)" fst "enumerate n s"] by simp

lemma top_n_stable:
  assumes "i < j" "j < length (top_n k s)" "snd (top_n k s ! i) = snd (top_n k s ! j)"
  shows "fst (top_n k s ! i) < fst (top_n k s ! j)"
proof -
  let ?f = "\<lambda>x::nat \<times> real. - snd x"
  let ?srt = "sort_key ?f (enumerate 0 s)"
  obtain n where tn: "top_n k s = take n ?srt"
    unfolding top_n_def using py_take_eq_take by blast
  have jn: "j < n" "j < length ?srt" using assms(2) tn by simp_all
  have eqi: "top_n k s ! i = ?srt ! i" "top_n k s ! j = ?srt ! j"
    using tn jn assms(1) by simp_all
  let ?P = "\<lambda>y. ?f y = ?f (?srt ! j)"
  have "filter ?P ?srt = filter ?P (enumerate 0 s)"
    by (rule sort_key_stable)
  moreover have "sorted_wrt (\<lambda>x y. fst x < fst y) (filter ?P (enumerate 0 s))"
    by (rule sorted_wrt_filter) (rule enumerate_fst_increasing)
  ultimately have "sorted_wrt (\<lambda>x y. fst x < fst y) (filter ?P ?srt)" by simp
  from filtered_order_nth[OF this assms(1) jn(2)] assms(3) eqi
  show ?thesis by simp
qed

section \<open>Lexical index: the rebuild\<close>

text \<open>
  \<open>__update_index\<close> raises exactly when the active documents have no token, and then it
  changes nothing; otherwise it stores the index over the active corpus together with the
  active positions.  Every method that returns normally leaves a consistent manager.
\<close>

lemma bm25okapi_init_cases:
  "bm25okapi_init corpus k1' b' =
     (if concat corpus = [] then Inl ZeroDivisionError
      else Inr \<lparr>okapi_corpus = corpus, okapi_k1 = k1', okapi_b = b'\<rparr>)"
  by (cases corpus) (simp_all add: bm25okapi_init_def)

lemma update_index_cases:
  "update_index tok m =
     (if concat (active_corpus tok m) = [] then (Some ZeroDivisionError, m)
      else (None,
            m\<lparr>index := Some \<lparr>okapi_corpus = active_corpus tok m, okapi_k1 = k1 m, okapi_b = b m\<rparr>,
              active_indices := active_positions m\<rparr>))"
  unfolding update_index_def Let_def bm25okapi_init_cases active_corpus_def[symmetric]
    active_positions_def[symmetric]
  by (cases "concat (active_corpus tok m) = []") simp_all

lemma active_ignores_index:
  "active_corpus tok (m\<lparr>index := i, active_indices := a\<rparr>) = active_corpus tok m"
  "active_positions (m\<lparr>index := i, active_indices := a\<rparr>) = active_positions m"
  by (simp_all add: active_corpus_def active_positions_def)

lemma active_corpus_positions:
  "active_corpus tok m = map (\<lambda>i. tok (docs m ! nat i)) (active_positions m)"
  by (simp add: active_corpus_def active_positions_def active_docs_eq)

lemma update_index_ok_consistent:
  assumes "update_index tok m = (None, m')"
  shows "consistent tok m'"
proof -
  from assms have ne: "concat (active_corpus tok m) \<noteq> []"
    and m': "m' = m\<lparr>index := Some \<lparr>okapi_corpus = active_corpus tok m, okapi_k1 = k1 m,
                                    okapi_b = b m\<rparr>,
                     active_indices := active_positions m\<rparr>"
    by (auto simp: update_index_cases split: if_splits)
  show ?thesis
    unfolding consistent_def update_index_cases[of tok m'] using ne
    by (simp add: m' active_ignores_index)
qed

lemma update_index_failed:
  "update_index tok m = (Some e, m') \<Longrightarrow> e = ZeroDivisionError \<and> m' = m"
  by (auto simp: update_index_cases split: if_splits)

lemma consistent_add: "bm25_add tok m documents = (Inr ids, m') \<Longrightarrow> consistent tok m'"
  by (auto simp: bm25_add_def Let_def split: prod.splits option.splits
      dest: update_index_ok_consistent)

lemma consistent_remove: "bm25_remove tok m ids = (None, m') \<Longrightarrow> consistent tok m'"
  by (auto simp: bm25_remove_def split: if_splits dest: update_index_ok_consistent)

lemma consistent_unmark_deleted: "bm25_unmark_deleted tok m ids = (None, m') \<Longrightarrow> consistent tok m'"
  by (auto simp: bm25_unmark_deleted_def split: if_splits dest: update_index_ok_consistent)

lemma consistent_init:
  "bm25_init tok (Some ix) ds fl k1' b' = Inr m \<Longrightarrow> consistent tok m"
  by (auto simp: bm25_init_def split: option.splits prod.splits if_splits
      dest: update_index_ok_consistent)

lemma consistent_fields:
  assumes "consistent tok m"
  shows "index m = Some \<lparr>okapi_corpus = corpus_of tok m, okapi_k1 = k1 m, okapi_b = b m\<rparr>"
    and "active_indices m = active_positions m"
    and "concat (corpus_of tok m) \<noteq> []"
proof -
  from assms have ne: "concat (active_corpus tok m) \<noteq> []"
    and eq: "m = m\<lparr>index := Some \<lparr>okapi_corpus = active_corpus tok m, okapi_k1 = k1 m,
                                  okapi_b = b m\<rparr>,
                   active_indices := active_positions m\<rparr>"
    by (auto simp: consistent_def update_index_cases split: if_splits)
  have i: "index m = Some \<lparr>okapi_corpus = active_corpus tok m, okapi_k1 = k1 m, okapi_b = b m\<rparr>"
    by (subst eq) simp
  show a: "active_indices m = active_positions m"
    by (subst eq) simp
  have c: "corpus_of tok m = active_corpus tok m"
    by (simp add: corpus_of_def a active_corpus_positions)
  show "index m = Some \<lparr>okapi_corpus = corpus_of tok m, okapi_k1 = k1 m, okapi_b = b m\<rparr>"
    using i c by simp
  show "concat (corpus_of tok m) \<noteq> []" using ne c by simp
qed

section \<open>Lexical index: search on a consistent manager\<close>

lemma active_positions_set:
  "set (active_positions m) = {i. 0 \<le> i \<and> i < int (length (docs m)) \<and> i \<notin> deleted_flags m}"
proof -
  have "set (map int [0..<length (docs m)]) = {i. 0 \<le> i \<and> i < int (length (docs m))}"
    by (auto simp: image_iff) (metis nat_less_iff nat_0_le atLeastLessThan_iff atLeast0LessThan lessThan_iff)
  then show ?thesis by (auto simp: active_positions_def)
qed

lemma active_positions_increasing: "sorted_wrt (<) (active_positions m)"
proof -
  have "sorted_wrt (<) (map int [0..<length (docs m)])"
    by (simp add: sorted_wrt_map)
  then show ?thesis by (simp add: active_positions_def sorted_wrt_filter)
qed

lemma search_empty:
  "active_indices m = [] \<Longrightarrow> bm25_search tok sc m query k = Inr ([], [])"
  by (simp add: bm25_search_def split: option.splits)

lemma search_uninitialized:
  "index m = None \<Longrightarrow> bm25_search tok sc m query k = Inr ([], [])"
  by (simp add: bm25_search_def)

text \<open>
  The result of a search in terms of the index object and the active list the manager holds,
  whenever the two have the same length (they are assigned together).
\<close>

lemma search_eq:
  assumes "index m = Some ix" and "active_indices m \<noteq> []"
    and "length (okapi_corpus ix) = length (active_indices m)"
  shows "bm25_search tok sc m query k =
           (let top = top_n k (get_scores sc ix (tok query))
            in Inr (map (\<lambda>p. active_indices m ! fst p) top, map snd top))"
proof -
  let ?s = "get_scores sc ix (tok query)"
  have len: "length ?s = length (active_indices m)" using assms(3) by (simp add: get_scores_def)
  have "\<forall>i\<in>set (map fst (top_n k ?s)). i < length (active_indices m)"
    using top_n_fst_bound[of _ k ?s] len by auto
  from lookup_all_in_range[OF this] show ?thesis
    using assms(1,2) by (simp add: bm25_search_def Let_def comp_def)
qed

text \<open>
  The ranking of a consistent manager, for \<open>k\<close> not negative: at most \<open>k\<close> positions, each
  one a position of the document list that is not tombstoned, each paired with the score the
  library gives its document, in order of non-increasing score, equal scores in order of
  increasing position.
\<close>

lemma search_ranking_consistent:
  assumes "consistent tok m" and "0 \<le> k"
  shows "\<exists>ids scores.
           bm25_search tok sc m query k = Inr (ids, scores)
         \<and> length ids \<le> nat k \<and> length scores = length ids
         \<and> (\<forall>i\<in>set ids. 0 \<le> i \<and> i < int (length (docs m)) \<and> i \<notin> deleted_flags m)
         \<and> (\<forall>j<length ids. scores ! j =
                sc (corpus_of tok m) (k1 m) (b m) (tok query) (tok (docs m ! nat (ids ! j))))
         \<and> sorted_wrt (\<ge>) scores
         \<and> (\<forall>i j. i < j \<and> j < length ids \<and> scores ! i = scores ! j \<longrightarrow> ids ! i < ids ! j)"
proof -
  let ?a = "active_indices m"
  let ?ix = "\<lparr>okapi_corpus = corpus_of tok m, okapi_k1 = k1 m, okapi_b = b m\<rparr>"
  let ?s = "map (sc (corpus_of tok m) (k1 m) (b m) (tok query)) (corpus_of tok m)"
  let ?top = "top_n k ?s"
  let ?ids = "map (\<lambda>p. ?a ! fst p) ?top"
  let ?scores = "map snd ?top"
  note f = consistent_fields[OF assms(1)]
  have ne: "?a \<noteq> []" using f(3) by (auto simp: corpus_of_def)
  have len: "length ?s = length ?a" by (simp add: corpus_of_def)
  have gs: "get_scores sc ?ix (tok query) = ?s" by (simp add: get_scores_def)
  have res: "bm25_search tok sc m query k = Inr (?ids, ?scores)"
    using search_eq[OF f(1) ne, of tok sc query k] gs by (simp add: Let_def corpus_of_def)
  have bound: "\<And>j. j < length ?top \<Longrightarrow> fst (?top ! j) < length ?a \<and> snd (?top ! j) = ?s ! fst (?top ! j)"
    using top_n_fst_bound[of _ k ?s] len by (metis nth_mem)
  have c1: "length ?ids \<le> nat k" using top_n_length[OF assms(2), of ?s] by simp
  have c2: "\<forall>i\<in>set ?ids. 0 \<le> i \<and> i < int (length (docs m)) \<and> i \<notin> deleted_flags m"
  proof
    fix i assume "i \<in> set ?ids"
    then obtain p where "p \<in> set ?top" "i = ?a ! fst p" by auto
    then have "i \<in> set ?a" using top_n_fst_bound[of p k ?s] len by simp
    then show "0 \<le> i \<and> i < int (length (docs m)) \<and> i \<notin> deleted_flags m"
      using active_positions_set[of m] f(2) by simp
  qed
  have c3: "\<forall>j<length ?ids. ?scores ! j =
                sc (corpus_of tok m) (k1 m) (b m) (tok query) (tok (docs m ! nat (?ids ! j)))"
  proof (intro allI impI)
    fix j assume "j < length ?ids"
    then have j: "j < length ?top" by simp
    from bound[OF j] show "?scores ! j =
        sc (corpus_of tok m) (k1 m) (b m) (tok query) (tok (docs m ! nat (?ids ! j)))"
      using j by (simp add: corpus_of_def)
  qed
  have c4: "sorted_wrt (\<ge>) ?scores"
  proof -
    have "sorted_wrt (\<lambda>x y. - snd x \<le> - snd y) ?top"
      using top_n_sorted[of k ?s] by (simp add: sorted_wrt_map)
    then show ?thesis by (simp add: sorted_wrt_map)
  qed
  have c5: "\<forall>i j. i < j \<and> j < length ?ids \<and> ?scores ! i = ?scores ! j \<longrightarrow> ?ids ! i < ?ids ! j"
  proof (intro allI impI)
    fix i j assume h: "i < j \<and> j < length ?ids \<and> ?scores ! i = ?scores ! j"
    then have ij: "i < j" "j < length ?top" "i < length ?top" by simp_all
    have "snd (?top ! i) = snd (?top ! j)" using h ij by simp
    from top_n_stable[OF ij(1) ij(2) this]
    have "fst (?top ! i) < fst (?top ! j)" .
    moreover have "fst (?top ! j) < length ?a" using bound[OF ij(2)] by simp
    ultimately have "?a ! fst (?top ! i) < ?a ! fst (?top ! j)"
      using active_positions_increasing[of m] f(2) by (simp add: sorted_wrt_nth_less)
    then show "?ids ! i < ?ids ! j" using ij by simp
  qed
  show ?thesis using res c1 c2 c3 c4 c5 by simp
qed

lemma search_ids_active:
  assumes "index m = Some ix" and "length (okapi_corpus ix) = length (active_indices m)"
  shows "\<exists>ids scores. bm25_search tok sc m query k = Inr (ids, scores)
           \<and> set ids \<subseteq> set (active_indices m) \<and> length scores = length ids"
proof (cases "active_indices m = []")
  case True
  then show ?thesis by (simp add: search_empty)
next
  case False
  let ?s = "get_scores sc ix (tok query)"
  have len: "length ?s = length (active_indices m)" using assms(2) by (simp add: get_scores_def)
  have "\<And>p. p \<in> set (top_n k ?s) \<Longrightarrow> active_indices m ! fst p \<in> set (active_indices m)"
    using top_n_fst_bound[of _ k ?s] len by simp
  then show ?thesis using search_eq[OF assms(1) False assms(2), of tok sc query k]
    by (auto simp: Let_def)
qed

lemma search_consistent_active:
  assumes "consistent tok m"
  shows "\<exists>ids scores. bm25_search tok sc m query k = Inr (ids, scores)
           \<and> set ids \<subseteq> set (active_positions m) \<and> length scores = length ids"
proof -
  note f = consistent_fields[OF assms]
  have "length (okapi_corpus \<lparr>okapi_corpus = corpus_of tok m, okapi_k1 = k1 m, okapi_b = b m\<rparr>)
          = length (active_indices m)"
    by (simp add: corpus_of_def)
  from search_ids_active[OF f(1) this, of tok sc query k] show ?thesis using f(2) by simp
qed

section \<open>Lexical index: adding when every position is tombstoned\<close>

lemma active_positions_appended:
  assumes "deleted_flags m = {i. 0 \<le> i \<and> i < int (length (docs m))}"
  shows "active_positions (m\<lparr>docs := docs m @ ds\<rparr>)
           = map int [length (docs m)..<length (docs m) + length ds]"
proof -
  let ?n = "length (docs m)"
  have a: "filter (\<lambda>i. i \<notin> deleted_flags m) (map int [0..<?n]) = []"
    using assms by (auto simp: filter_empty_conv)
  have b: "filter (\<lambda>i. i \<notin> deleted_flags m) (map int [?n..<?n + length ds])
             = map int [?n..<?n + length ds]"
    using assms by (auto simp: filter_id_conv)
  have "[0..<?n + length ds] = [0..<?n] @ [?n..<?n + length ds]"
    using upt_add_eq_append[of 0 ?n "length ds"] by simp
  then have "active_positions (m\<lparr>docs := docs m @ ds\<rparr>)
      = filter (\<lambda>i. i \<notin> deleted_flags m) (map int [0..<?n])
        @ filter (\<lambda>i. i \<notin> deleted_flags m) (map int [?n..<?n + length ds])"
    by (simp add: active_positions_def)
  then show ?thesis by (simp only: a b append_Nil)
qed

lemma appended_nth: "map (\<lambda>i. (xs @ ds) ! i) [length xs..<length xs + length ds] = ds"
  by (rule nth_equalityI) (simp_all add: nth_append)

lemma active_corpus_appended:
  assumes "deleted_flags m = {i. 0 \<le> i \<and> i < int (length (docs m))}"
  shows "active_corpus tok (m\<lparr>docs := docs m @ ds\<rparr>) = map tok ds"
proof -
  have "active_corpus tok (m\<lparr>docs := docs m @ ds\<rparr>)
          = map tok (map (\<lambda>i. (docs m @ ds) ! i) [length (docs m)..<length (docs m) + length ds])"
    unfolding active_corpus_positions active_positions_appended[OF assms]
    by (simp add: comp_def)
  then show ?thesis by (simp only: appended_nth)
qed

text \<open>
  Adding to a manager whose positions are all tombstoned, which \<open>remove\<close> leaves when the
  rebuild after the last removal raises: the index object and the active list are still those
  of the last successful rebuild, so \<open>add\<close> does not reset the tombstones.  When the new
  documents have a token the rebuild succeeds, the new documents get the next positions, the
  tombstones stay, and every search returns new positions only.
\<close>

lemma add_after_all_tombstoned:
  assumes "index m \<noteq> None" and "active_indices m \<noteq> []"
    and "deleted_flags m = {i. 0 \<le> i \<and> i < int (length (docs m))}"
    and "concat (map tok (doc_list documents)) \<noteq> []"
  shows "\<exists>m'. bm25_add tok m documents =
                (Inr (map int [length (docs m)..<length (docs m) + length (doc_list documents)]), m')
           \<and> docs m' = docs m @ doc_list documents
           \<and> deleted_flags m' = deleted_flags m
           \<and> (\<forall>sc query k. \<exists>ids scores.
                  bm25_search tok sc m' query k = Inr (ids, scores)
                \<and> (\<forall>i\<in>set ids. i \<notin> deleted_flags m \<and> int (length (docs m)) \<le> i
                                 \<and> i < int (length (docs m'))))"
proof -
  let ?ds = "doc_list documents"
  let ?m2 = "m\<lparr>docs := docs m @ ?ds\<rparr>"
  let ?new = "map int [length (docs m)..<length (docs m) + length ?ds]"
  define m' where "m' = ?m2\<lparr>index := Some \<lparr>okapi_corpus = active_corpus tok ?m2,
                                           okapi_k1 = k1 ?m2, okapi_b = b ?m2\<rparr>,
                            active_indices := active_positions ?m2\<rparr>"
  have "active_corpus tok ?m2 = map tok ?ds" by (rule active_corpus_appended[OF assms(3)])
  then have ne: "concat (active_corpus tok ?m2) \<noteq> []"
    using assms(4) by simp
  have u: "update_index tok ?m2 = (None, m')"
    unfolding update_index_cases m'_def using ne by simp
  obtain ix where ix: "index m = Some ix" using assms(1) by blast
  have add: "bm25_add tok m documents = (Inr ?new, m')"
    by (simp add: bm25_add_def Let_def ix assms(2) u)
  have d: "docs m' = docs m @ ?ds" and fl: "deleted_flags m' = deleted_flags m"
    by (simp_all add: m'_def)
  have c: "consistent tok m'" using u by (rule update_index_ok_consistent)
  have ap: "active_positions m' = ?new"
    using active_positions_appended[OF assms(3), of ?ds] by (simp add: m'_def active_ignores_index)
  have s: "\<exists>ids scores. bm25_search tok sc m' query k = Inr (ids, scores)
                \<and> (\<forall>i\<in>set ids. i \<notin> deleted_flags m \<and> int (length (docs m)) \<le> i
                                 \<and> i < int (length (docs m')))" for sc query k
  proof -
    from search_consistent_active[OF c, of sc query k] obtain ids scores where
      r: "bm25_search tok sc m' query k = Inr (ids, scores)" and
      sub: "set ids \<subseteq> set (active_positions m')" by blast
    have "\<forall>i\<in>set ids. i \<notin> deleted_flags m \<and> int (length (docs m)) \<le> i \<and> i < int (length (docs m'))"
      using sub ap assms(3) d by auto
    with r show ?thesis by blast
  qed
  show ?thesis using add d fl s by blast
qed

section \<open>Lexical index: export and load, in general\<close>

lemma update_index_ignores:
  "update_index tok (m\<lparr>active_indices := a\<rparr>) =
     (case update_index tok m of (e, m') \<Rightarrow> (e, if e = None then m' else m'\<lparr>active_indices := a\<rparr>))"
proof -
  have "active_corpus tok (m\<lparr>active_indices := a\<rparr>) = active_corpus tok m"
       "active_positions (m\<lparr>active_indices := a\<rparr>) = active_positions m"
    by (simp_all add: active_corpus_def active_positions_def)
  then show ?thesis by (simp add: update_index_cases)
qed

lemma init_consistent:
  assumes "consistent tok m" and "index m = Some ix"
  shows "bm25_init tok (Some ix) (Some (docs m)) (Some (deleted_flags m)) (k1 m) (b m) = Inr m"
proof -
  have e: "\<lparr>k1 = k1 m, b = b m, index = Some ix, docs = docs m, deleted_flags = deleted_flags m,
          active_indices = []\<rparr> = m\<lparr>active_indices := []\<rparr>"
    using assms(2) by simp
  have u: "update_index tok m = (None, m)" using assms(1) by (simp add: consistent_def)
  have u0: "update_index tok \<lparr>k1 = k1 m, b = b m, index = Some ix, docs = docs m,
          deleted_flags = deleted_flags m, active_indices = []\<rparr> = (None, m)"
    unfolding e by (simp add: update_index_ignores u)
  show ?thesis by (simp add: bm25_init_def u0 u)
qed

lemma init_stale:
  assumes "concat (active_corpus tok m) = []"
  shows "bm25_init tok (Some ix) (Some (docs m)) (Some (deleted_flags m)) (k1 m) (b m)
           = Inl ZeroDivisionError"
proof -
  have "active_corpus tok \<lparr>k1 = k1 m, b = b m, index = Some ix, docs = docs m,
           deleted_flags = deleted_flags m, active_indices = []\<rparr> = active_corpus tok m"
    by (simp add: active_corpus_def)
  then show ?thesis using assms by (simp add: bm25_init_def update_index_cases)
qed

text \<open>
  For a pickle codec whose \<open>loads\<close> inverts \<open>dumps\<close> and a consistent manager \<open>m\<close>, \<open>export\<close>
  succeeds and \<open>load_from_byte\<close> of its result yields \<open>m\<close> again: the same documents (hence
  the same position ids), tombstones, active positions, \<open>k1\<close> and \<open>b\<close>, and the same result of
  every search.
\<close>

lemma export_load_roundtrip:
  assumes "\<And>d. loads (dumps d) = Inr d" and "consistent tok m"
  shows "\<exists>bytes. bm25_export dumps m = Inr bytes \<and> bm25_load_from_byte loads tok bytes = Inr m"
proof -
  obtain ix where ix: "index m = Some ix" using consistent_fields(1)[OF assms(2)] by blast
  show ?thesis
    using ix assms(1) init_consistent[OF assms(2) ix]
    by (simp add: bm25_export_def bm25_load_from_byte_def)
qed

text \<open>
  A manager that a failed rebuild left (its active documents have no token) still exports,
  and loading the export raises: the constructor rebuilds the index and the rebuild fails
  again.
\<close>

lemma export_stale_not_loadable:
  assumes "\<And>d. loads (dumps d) = Inr d" and "index m = Some ix"
    and "concat (active_corpus tok m) = []"
  shows "\<exists>bytes. bm25_export dumps m = Inr bytes
           \<and> bm25_load_from_byte loads tok bytes = Inl ZeroDivisionError"
  using assms(1,2) init_stale[OF assms(3), of ix]
  by (simp add: bm25_export_def bm25_load_from_byte_def)

section \<open>Lexical index: runs on sample inputs\<close>

lemma words_cat: "words ''cat'' = [''cat'']" by (simp add: words_def)

lemma words_dog: "words ''dog'' = [''dog'']" by (simp add: words_def)

lemma words_empty: "words [] = []" by (simp add: words_def)

lemma add_cat: "bm25_add words bm25_new (Doc ''cat'') = (Inr [0], cat_only)"
  by (simp add: bm25_add_def bm25_new_def update_index_def bm25okapi_init_def cat_only_def
      doc_list_def Let_def words_cat)

lemma remove_cat: "bm25_remove words cat_only (Id 0) = (Some ZeroDivisionError, cat_tombstoned)"
  by (simp add: bm25_remove_def update_index_def bm25okapi_init_def cat_only_def
      cat_tombstoned_def id_list_def Let_def)

lemma add_nothing:
  "bm25_add words cat_tombstoned (Docs []) = (Inl ZeroDivisionError, cat_tombstoned)"
  by (simp add: bm25_add_def update_index_def bm25okapi_init_def cat_only_def
      cat_tombstoned_def doc_list_def Let_def)

lemma add_empty_text:
  "bm25_add words cat_tombstoned (Doc []) =
     (Inl ZeroDivisionError, cat_tombstoned\<lparr>docs := [''cat'', []]\<rparr>)"
  by (simp add: bm25_add_def update_index_def bm25okapi_init_def cat_only_def
      cat_tombstoned_def doc_list_def Let_def words_empty)

lemma add_cat_dog: "bm25_add words bm25_new (Docs [''cat'', ''dog'']) = (Inr [0, 1], cat_dog)"
  by (simp add: bm25_add_def bm25_new_def update_index_def bm25okapi_init_def cat_dog_def
      doc_list_def Let_def words_cat words_dog)

lemma remove_first: "bm25_remove words cat_dog (Id 0) = (None, dog_only)"
  by (simp add: bm25_remove_def update_index_def bm25okapi_init_def cat_dog_def dog_only_def
      id_list_def Let_def words_dog)

lemma remove_second:
  "bm25_remove words dog_only (Id 1) = (Some ZeroDivisionError, both_tombstoned)"
  by (simp add: bm25_remove_def update_index_def bm25okapi_init_def dog_only_def
      both_tombstoned_def id_list_def Let_def insert_commute)

lemma top_n_single: "top_n 5 [s] = [(0, s)]"
  by (simp add: top_n_def py_take_def)

lemma search_both_tombstoned:
  "bm25_search words sc both_tombstoned ''dog'' 5 =
     Inr ([1], [sc [[''dog'']] (3/2) (3/4) [''dog''] [''dog'']])"
  by (simp add: bm25_search_def both_tombstoned_def dog_only_def get_scores_def top_n_single
      words_dog)

section \<open>Lexical index: the uninitialized manager\<close>

lemma add_to_new:
  assumes "concat (map tok (doc_list documents)) \<noteq> []"
  shows "\<exists>m'. bm25_add tok bm25_new documents =
                (Inr (map int [0..<length (doc_list documents)]), m')"
proof -
  have fl: "deleted_flags bm25_new = {i. 0 \<le> i \<and> i < int (length (docs bm25_new))}"
    by (simp add: bm25_new_def)
  have "active_corpus tok (bm25_new\<lparr>docs := docs bm25_new @ doc_list documents\<rparr>)
          = map tok (doc_list documents)"
    by (rule active_corpus_appended[OF fl])
  then have "concat (active_corpus tok (bm25_new\<lparr>docs := doc_list documents, deleted_flags := {}\<rparr>)) \<noteq> []"
    using assms by (simp add: bm25_new_def)
  then show ?thesis
    by (simp add: bm25_add_def Let_def update_index_cases) (simp add: bm25_new_def)
qed

text \<open>
  C4 (as the code has it): on a manager on which \<open>add\<close> was never called, \<open>add\<close> of documents
  with at least one token succeeds and returns the positions from 0 on, \<open>remove\<close> fails with
  the state error \<open>ValueError\<close> and changes nothing, and \<open>search\<close> does not fail: it returns the
  pair of empty lists.
\<close>

theorem uninitialized_manager_behaviour:
  assumes "concat (map tok (doc_list documents)) \<noteq> []"
  shows "(\<exists>m'. bm25_add tok bm25_new documents =
                  (Inr (map int [0..<length (doc_list documents)]), m'))
       \<and> bm25_remove tok bm25_new ids = (Some ValueError, bm25_new)
       \<and> bm25_search tok sc bm25_new query k = Inr ([], [])"
  using add_to_new[OF assms]
  by (simp add: bm25_remove_def bm25_search_def) (simp add: bm25_new_def)

theorem uninitialized_manager_behaviour_witness:
  "concat (map words (doc_list (Doc ''cat''))) \<noteq> []
   \<and> bm25_add words bm25_new (Doc ''cat'') = (Inr [0], cat_only)
   \<and> bm25_remove words bm25_new (Id 0) = (Some ValueError, bm25_new)
   \<and> bm25_search words overlap bm25_new ''cat'' 5 = Inr ([], [])"
proof -
  have h: "concat (map words (doc_list (Doc ''cat''))) \<noteq> []"
    by (simp add: doc_list_def words_cat)
  from uninitialized_manager_behaviour[OF h, of "Id 0" overlap "''cat''" 5] h add_cat
  show ?thesis by simp
qed

text \<open>
  C4 as stated fails: \<open>search\<close> on the uninitialized manager raises no state error.
\<close>

theorem uninitialized_search_counterexample:
  "\<not> (\<exists>tok sc e. bm25_search tok sc bm25_new ''cat'' 5 = Inl e)"
  by (simp add: bm25_search_def bm25_new_def)

section \<open>Lexical index: \<open>add\<close> after a failed rebuild\<close>

text \<open>
  C1, at \<open>add("cat")\<close>, \<open>remove(0)\<close>, \<open>add([])\<close> on a new manager: the \<open>remove\<close> raises
  \<open>ZeroDivisionError\<close> in the rebuild and leaves the only position tombstoned; in that state
  \<open>add([])\<close> does not succeed, it raises \<open>ZeroDivisionError\<close> too, and so does \<open>add("")\<close>, which
  also leaves the empty text in the document list.
\<close>

theorem add_after_all_tombstoned_raises:
  "bm25_add words bm25_new (Doc ''cat'') = (Inr [0], cat_only)
   \<and> bm25_remove words cat_only (Id 0) = (Some ZeroDivisionError, cat_tombstoned)
   \<and> docs cat_tombstoned = [''cat''] \<and> deleted_flags cat_tombstoned = {0}
   \<and> bm25_add words cat_tombstoned (Docs []) = (Inl ZeroDivisionError, cat_tombstoned)
   \<and> bm25_add words cat_tombstoned (Doc []) =
        (Inl ZeroDivisionError, cat_tombstoned\<lparr>docs := [''cat'', []]\<rparr>)"
  using add_cat remove_cat add_nothing add_empty_text
  by (simp add: cat_tombstoned_def cat_only_def)

section \<open>Lexical index: \<open>search\<close> after a failed rebuild\<close>

text \<open>
  C5, at \<open>add(["cat", "dog"])\<close>, \<open>remove(0)\<close>, \<open>remove(1)\<close>, \<open>search("dog", 5)\<close> on a new
  manager: the second \<open>remove\<close> raises \<open>ZeroDivisionError\<close> in the rebuild, with both positions
  tombstoned and the index and the active list of the first \<open>remove\<close> still in place; the
  search then returns the tombstoned position 1 with its score, for every ranking function,
  where no active document exists.
\<close>

theorem search_returns_tombstoned_position:
  "bm25_add words bm25_new (Docs [''cat'', ''dog'']) = (Inr [0, 1], cat_dog)
   \<and> bm25_remove words cat_dog (Id 0) = (None, dog_only)
   \<and> bm25_remove words dog_only (Id 1) = (Some ZeroDivisionError, both_tombstoned)
   \<and> deleted_flags both_tombstoned = {0, 1}
   \<and> bm25_search words sc both_tombstoned ''dog'' 5 =
        Inr ([1], [sc [[''dog'']] (3/2) (3/4) [''dog''] [''dog'']])"
  using add_cat_dog remove_first remove_second search_both_tombstoned[of sc]
  by (simp add: both_tombstoned_def)

section \<open>Lexical index: scenario A\<close>

lemma scenario_a_add:
  "bm25_add tok bm25_new (Docs scenario_a_docs) =
     (if concat (map tok scenario_a_docs) = []
      then (Inl ZeroDivisionError, bm25_new\<lparr>docs := scenario_a_docs\<rparr>)
      else (Inr [0, 1], scenario_a_manager tok))"
proof -
  define m2 where "m2 = bm25_new\<lparr>docs := scenario_a_docs, deleted_flags := {}\<rparr>"
  have c: "active_corpus tok m2 = map tok scenario_a_docs"
    by (simp add: m2_def active_corpus_def scenario_a_docs_def)
  have p: "active_positions m2 = [0, 1]"
    by (simp add: m2_def active_positions_def scenario_a_docs_def)
  have a: "bm25_add tok bm25_new (Docs scenario_a_docs) =
             (case update_index tok m2 of
                (Some e, m3) \<Rightarrow> (Inl e, m3)
              | (None, m3) \<Rightarrow> (Inr [0, 1], m3))"
  proof (cases "update_index tok m2")
    case (Pair e m3)
    then show ?thesis
      by (cases e)
        (simp_all add: bm25_add_def Let_def m2_def bm25_new_def doc_list_def scenario_a_docs_def)
  qed
  have u: "update_index tok m2 =
             (if concat (map tok scenario_a_docs) = [] then (Some ZeroDivisionError, m2)
              else (None, m2\<lparr>index := Some \<lparr>okapi_corpus = map tok scenario_a_docs,
                                               okapi_k1 = k1 m2, okapi_b = b m2\<rparr>,
                              active_indices := [0, 1]\<rparr>))"
    unfolding update_index_cases c p by (rule refl)
  show ?thesis
    unfolding a u by (simp add: m2_def bm25_new_def scenario_a_manager_def)
qed

lemma top_n_pair:
  "top_n 5 [s0, s1] = (if s1 \<le> s0 then [(0, s0), (1, s1)] else [(1, s1), (0, s0)])"
  by (simp add: top_n_def py_take_def)

lemma scenario_a_search_eq:
  "bm25_search tok sc (scenario_a_manager tok) ''cat'' 5 =
     (let s0 = sc (map tok scenario_a_docs) (3/2) (3/4) (tok ''cat'') (tok ''the cat sat on the mat'');
          s1 = sc (map tok scenario_a_docs) (3/2) (3/4) (tok ''cat'') (tok ''the dog ran in the park'')
      in Inr (if s1 \<le> s0 then ([0, 1], [s0, s1]) else ([1, 0], [s1, s0])))"
  by (simp add: bm25_search_def scenario_a_manager_def get_scores_def top_n_pair Let_def
      scenario_a_docs_def)

text \<open>
  C2 (as the code has it): on a fresh index, for a tokenizer that finds a token in the two
  documents, adding them returns the positions \<open>[0, 1]\<close>, and \<open>search("cat", k=5)\<close> returns
  both positions with their scores, the higher score first and position 0 first on a tie; no
  result is dropped for a zero score.
\<close>

theorem scenario_a_returns_both:
  assumes "concat (map tok scenario_a_docs) \<noteq> []"
  shows "bm25_add tok bm25_new (Docs scenario_a_docs) = (Inr [0, 1], scenario_a_manager tok)
   \<and> bm25_search tok sc (scenario_a_manager tok) ''cat'' 5 =
     (let s0 = sc (map tok scenario_a_docs) (3/2) (3/4) (tok ''cat'') (tok ''the cat sat on the mat'');
          s1 = sc (map tok scenario_a_docs) (3/2) (3/4) (tok ''cat'') (tok ''the dog ran in the park'')
      in Inr (if s1 \<le> s0 then ([0, 1], [s0, s1]) else ([1, 0], [s1, s0])))"
  using assms scenario_a_add[of tok] scenario_a_search_eq[of tok sc] by simp

lemma words_scenario_a:
  "words ''the cat sat on the mat'' = [''the'', ''cat'', ''sat'', ''on'', ''the'', ''mat'']"
  "words ''the dog ran in the park'' = [''the'', ''dog'', ''ran'', ''in'', ''the'', ''park'']"
  by (simp_all add: words_def)

theorem scenario_a_returns_both_witness:
  "concat (map words scenario_a_docs) \<noteq> []
   \<and> bm25_add words bm25_new (Docs scenario_a_docs) = (Inr [0, 1], scenario_a_manager words)
   \<and> bm25_search words overlap (scenario_a_manager words) ''cat'' 5 = Inr ([0, 1], [1, 0])"
proof -
  have h: "concat (map words scenario_a_docs) \<noteq> []"
    by (simp add: scenario_a_docs_def words_scenario_a)
  have s: "overlap (map words scenario_a_docs) (3/2) (3/4) (words ''cat'')
             (words ''the cat sat on the mat'') = 1"
          "overlap (map words scenario_a_docs) (3/2) (3/4) (words ''cat'')
             (words ''the dog ran in the park'') = 0"
    by (simp_all add: overlap_def words_cat words_scenario_a)
  from scenario_a_returns_both[OF h, of overlap] h show ?thesis
    by (simp add: s Let_def)
qed

text \<open>
  C2 as stated fails: for no tokenizer and no ranking function is the result the single
  id 0 with one positive score.
\<close>

theorem scenario_a_counterexample:
  "\<not> (\<exists>tok sc m' s.
         bm25_add tok bm25_new (Docs scenario_a_docs) = (Inr [0, 1], m')
       \<and> bm25_search tok sc m' ''cat'' 5 = Inr ([0], [s]) \<and> 0 < s)"
proof
  assume "\<exists>tok sc m' s.
         bm25_add tok bm25_new (Docs scenario_a_docs) = (Inr [0, 1], m')
       \<and> bm25_search tok sc m' ''cat'' 5 = Inr ([0], [s]) \<and> 0 < s"
  then obtain tok sc m' s where
    a: "bm25_add tok bm25_new (Docs scenario_a_docs) = (Inr [0, 1], m')" and
    r: "bm25_search tok sc m' ''cat'' 5 = Inr ([0], [s])"
    by blast
  from a have "m' = scenario_a_manager tok" by (simp add: scenario_a_add split: if_splits)
  with r show False by (simp add: scenario_a_search_eq Let_def split: if_splits)
qed

section \<open>Lexical index: \<open>export\<close> after a failed rebuild\<close>

text \<open>
  C9, at the manager that \<open>add("cat")\<close> and \<open>remove(0)\<close> leave, with the identity for the
  pickle codec: the manager is initialized and \<open>export\<close> succeeds, but \<open>load_from_byte\<close> of
  the exported data raises \<open>ZeroDivisionError\<close> and reconstructs no manager.
\<close>

theorem export_of_tombstoned_manager_not_loadable:
  "bm25_add words bm25_new (Doc ''cat'') = (Inr [0], cat_only)
   \<and> bm25_remove words cat_only (Id 0) = (Some ZeroDivisionError, cat_tombstoned)
   \<and> bm25_export (\<lambda>d. d) cat_tombstoned =
        Inr \<lparr>exp_index = \<lparr>okapi_corpus = [[''cat'']], okapi_k1 = 3/2, okapi_b = 3/4\<rparr>,
             exp_docs = [''cat''], exp_deleted_flags = {0}, exp_k1 = 3/2, exp_b = 3/4\<rparr>
   \<and> bm25_load_from_byte Inr words
        \<lparr>exp_index = \<lparr>okapi_corpus = [[''cat'']], okapi_k1 = 3/2, okapi_b = 3/4\<rparr>,
         exp_docs = [''cat''], exp_deleted_flags = {0}, exp_k1 = 3/2, exp_b = 3/4\<rparr>
        = Inl ZeroDivisionError"
  using add_cat remove_cat
  by (simp add: bm25_export_def bm25_load_from_byte_def bm25_init_def update_index_def
      bm25okapi_init_def cat_tombstoned_def cat_only_def Let_def)

section \<open>Chunk id allocator\<close>

declare digits.simps [simp del]

lemma digit_char_inj: "x < 10 \<Longrightarrow> y < 10 \<Longrightarrow> digit_char x = digit_char y \<Longrightarrow> x = y"
  by (simp add: digit_char_def split: if_splits) arith

lemma digits_small: "n < 10 \<Longrightarrow> digits n = [digit_char n]"
  by (subst digits.simps) simp

lemma digits_large: "\<not> n < 10 \<Longrightarrow> digits n = digits (n div 10) @ [digit_char (n mod 10)]"
  by (subst digits.simps) simp

lemma digits_nonempty: "digits n \<noteq> []"
  by (cases "n < 10") (simp_all add: digits_small digits_large)

lemma digit_char_not_minus: "digit_char d \<noteq> CHR ''-''"
  by (simp add: digit_char_def)

lemma digits_no_minus: "CHR ''-'' \<notin> set (digits n)"
proof (induction n rule: digits.induct)
  case (1 n)
  show ?case
  proof (cases "n < 10")
    case True
    then show ?thesis using digit_char_not_minus[of n] by (auto simp: digits_small)
  next
    case False
    then show ?thesis using 1 digit_char_not_minus[of "n mod 10"] by (auto simp: digits_large)
  qed
qed

lemma digits_inj: "digits n = digits m \<Longrightarrow> n = m"
proof (induction n arbitrary: m rule: digits.induct)
  case (1 n)
  show ?case
  proof (cases "n < 10")
    case True
    note n = this
    show ?thesis
    proof (cases "m < 10")
      case True
      then show ?thesis using n "1.prems" digit_char_inj[of n m] by (simp add: digits_small)
    next
      case False
      then show ?thesis using n "1.prems" digits_nonempty[of "m div 10"]
        by (simp add: digits_small digits_large)
    qed
  next
    case False
    note n = this
    show ?thesis
    proof (cases "m < 10")
      case True
      then show ?thesis using n "1.prems" digits_nonempty[of "n div 10"]
        by (simp add: digits_small digits_large)
    next
      case False
      with n "1.prems" have e: "digits (n div 10) = digits (m div 10)"
        "digit_char (n mod 10) = digit_char (m mod 10)" by (simp_all add: digits_large)
      from "1.IH"[OF n e(1)] have "n div 10 = m div 10" .
      moreover have "n mod 10 = m mod 10" using digit_char_inj[OF _ _ e(2)] by simp
      ultimately show ?thesis by (metis div_mult_mod_eq)
    qed
  qed
qed

lemma digits_hd: "hd (digits n) \<noteq> CHR ''-''"
  using digits_no_minus[of n] digits_nonempty[of n] by (metis list.set_sel(1))

lemma str_int_inj: "str_int i = str_int j \<Longrightarrow> i = j"
proof -
  assume a: "str_int i = str_int j"
  show ?thesis
  proof (cases "i < 0")
    case True
    note i = this
    show ?thesis
    proof (cases "j < 0")
      case True
      with i a have "digits (nat (- i)) = digits (nat (- j))" by (simp add: str_int_def)
      then have "nat (- i) = nat (- j)" by (rule digits_inj)
      then show ?thesis using True i by simp
    next
      case False
      with i a have "digits (nat j) = CHR ''-'' # digits (nat (- i))" by (simp add: str_int_def)
      then have "hd (digits (nat j)) = CHR ''-''" by simp
      then show ?thesis using digits_hd by simp
    qed
  next
    case False
    note i = this
    show ?thesis
    proof (cases "j < 0")
      case True
      with i a have "digits (nat i) = CHR ''-'' # digits (nat (- j))" by (simp add: str_int_def)
      then have "hd (digits (nat i)) = CHR ''-''" by simp
      then show ?thesis using digits_hd by simp
    next
      case False
      with i a have "digits (nat i) = digits (nat j)" by (simp add: str_int_def)
      then have "nat i = nat j" by (rule digits_inj)
      then show ?thesis using False i by simp
    qed
  qed
qed

lemma load_counter:
  "id_counter (cim_load_from_storage s) = stored_counter (cim_storage s)"
  "stored_counter (cim_storage (cim_load_from_storage s)) = stored_counter (cim_storage s)"
  by (auto simp: cim_load_from_storage_def cim_save_to_storage_def stored_counter_def
      split: stored.splits option.splits)

lemma get_new_id_value:
  "fst (get_new_id s) = str_int (stored_counter (cim_storage s))"
  by (simp add: get_new_id_def Let_def load_counter)

lemma get_new_id_counter:
  "id_counter (snd (get_new_id s)) = stored_counter (cim_storage s) + 1"
  "stored_counter (cim_storage (snd (get_new_id s))) = stored_counter (cim_storage s) + 1"
  by (simp_all add: get_new_id_def Let_def load_counter cim_save_to_storage_def stored_counter_def)

lemma add_mapping_counter:
  "stored_counter (cim_storage (cim_add_mapping s c ids)) = stored_counter (cim_storage s)"
  by (simp add: cim_add_mapping_def Let_def load_counter cim_save_to_storage_def stored_counter_def)

lemma remove_mapping_counter:
  "stored_counter (cim_storage (cim_remove_mapping s c)) = stored_counter (cim_storage s)"
proof -
  have "stored_counter (cim_storage (cim_save_to_storage
           ((cim_load_from_storage s)\<lparr>id_map := AList.delete c (id_map (cim_load_from_storage s))\<rparr>)))
        = id_counter (cim_load_from_storage s)"
    by (simp add: cim_save_to_storage_def stored_counter_def)
  then show ?thesis
    by (simp add: cim_remove_mapping_def Let_def load_counter)
qed

lemma init_counter:
  "stored_counter (cim_storage (cim_init st)) = stored_counter st"
  using load_counter(2)[of "\<lparr>cim_storage = st, id_counter = 0, id_map = []\<rparr>"]
  by (simp add: cim_init_def)

lemma run_ops_issued:
  "fst (run_ops s ops) =
     map (\<lambda>i. str_int (stored_counter (cim_storage s) + int i))
       [0..<length (filter (\<lambda>x. x = GetNewId) ops)]"
proof (induction s ops rule: run_ops.induct)
  case (1 s)
  then show ?case by simp
next
  case (2 s ops)
  obtain i s1 where g: "get_new_id s = (i, s1)" by (cases "get_new_id s")
  have i: "i = str_int (stored_counter (cim_storage s))" using get_new_id_value[of s] g by simp
  have c: "stored_counter (cim_storage s1) = stored_counter (cim_storage s) + 1"
    using get_new_id_counter(2)[of s] g by simp
  let ?n = "length (filter (\<lambda>x. x = GetNewId) ops)"
  have ih: "fst (run_ops s1 ops) =
      map (\<lambda>i. str_int (stored_counter (cim_storage s) + 1 + int i)) [0..<?n]"
    using "2.IH"[OF g[symmetric] refl] c by simp
  have "[0..<Suc ?n] = 0 # map Suc [0..<?n]"
    by (simp add: upt_conv_Cons map_Suc_upt del: upt_Suc)
  then have "map (\<lambda>i. str_int (stored_counter (cim_storage s) + int i)) [0..<Suc ?n]
      = str_int (stored_counter (cim_storage s))
        # map (\<lambda>i. str_int (stored_counter (cim_storage s) + 1 + int i)) [0..<?n]"
    by (simp add: comp_def ac_simps del: upt_Suc)
  then show ?case using g i ih by (simp add: split_beta del: upt_Suc)
next
  case (3 s c ids ops)
  then show ?case by (simp add: add_mapping_counter)
next
  case (4 s c ops)
  then show ?case by (simp add: remove_mapping_counter)
next
  case (5 s ops)
  then show ?case by (simp add: init_counter)
qed

lemma consecutive_increasing: "sorted_wrt (<) (map (\<lambda>i. c + int i) [0..<n])"
  by (simp add: sorted_wrt_map sorted_wrt_iff_nth_less)

text \<open>
  C6: for every allocator state and every history of \<open>get_new_id\<close>, \<open>add_mapping\<close>,
  \<open>remove_mapping\<close> calls and restarts, the ids returned are the decimal strings of strictly
  increasing integers and no string is returned twice; each \<open>get_new_id\<close> returns the
  persisted counter as a string and leaves the counter, in the object and in the blob, one
  higher.
\<close>

theorem chunk_ids_strictly_increasing:
  "\<exists>cs. fst (run_ops s ops) = map str_int cs
        \<and> sorted_wrt (<) cs
        \<and> distinct (fst (run_ops s ops))
        \<and> fst (get_new_id s) = str_int (stored_counter (cim_storage s))
        \<and> id_counter (snd (get_new_id s)) = stored_counter (cim_storage s) + 1
        \<and> stored_counter (cim_storage (snd (get_new_id s))) = stored_counter (cim_storage s) + 1"
proof -
  let ?c = "stored_counter (cim_storage s)"
  let ?cs = "map (\<lambda>i. ?c + int i) [0..<length (filter (\<lambda>x. x = GetNewId) ops)]"
  have r: "fst (run_ops s ops) = map str_int ?cs"
    by (simp add: run_ops_issued comp_def)
  have inc: "sorted_wrt (<) ?cs" by (rule consecutive_increasing)
  then have d: "distinct ?cs" using strict_sorted_iff by blast
  have inj: "inj_on str_int (set ?cs)" by (rule inj_onI) (rule str_int_inj)
  have "distinct (map str_int ?cs)"
    by (rule iffD2[OF distinct_map]) (rule conjI[OF d inj])
  then show ?thesis using r inc get_new_id_value get_new_id_counter by metis
qed

section \<open>Reverse index\<close>

lemma reverse_loop_eq:
  "reverse_loop fwd r =
     (\<lambda>key. case r key of
               None \<Rightarrow> if grouped fwd key = [] then None else Some (grouped fwd key)
             | Some l \<Rightarrow> Some (l @ grouped fwd key))"
proof (induction fwd arbitrary: r)
  case Nil
  show ?case by (rule ext) (simp add: grouped_def split: option.splits)
next
  case (Cons p fwd)
  obtain c i where p: "p = (c, i)" by (cases p)
  show ?case unfolding p
    by (rule ext) (simp add: Cons.IH grouped_def Let_def split: option.splits)
qed

lemma update_reverse_mapping_grouping:
  "reverse_mapping (update_reverse_mapping s) = grouping (mapping s)"
  by (simp add: update_reverse_mapping_def reverse_loop_eq grouping_def)

lemma grouping_empty: "grouping [] = Map.empty"
  by (rule ext) (simp add: grouping_def grouped_def)

lemma update_reverse_mapping_fields:
  "mapping (update_reverse_mapping s) = mapping s"
  "cbm_storage (update_reverse_mapping s) = cbm_storage s"
  by (simp_all add: update_reverse_mapping_def)

lemma cbm_save_fields:
  "mapping (cbm_save_to_storage s) = mapping s"
  "reverse_mapping (cbm_save_to_storage s) = reverse_mapping s"
  "cbm_storage (cbm_save_to_storage s) = Parsed (mapping s)"
  by (simp_all add: cbm_save_to_storage_def)

lemmas cbm_fields = update_reverse_mapping_fields cbm_save_fields update_reverse_mapping_grouping

lemma load_in_sync: "reverse_in_sync (cbm_load_from_storage s)"
  by (cases "cbm_storage s")
     (simp_all add: reverse_in_sync_def cbm_load_from_storage_def cbm_fields grouping_empty)

lemma init_in_sync: "reverse_in_sync (cbm_init st)"
  by (simp add: cbm_init_def load_in_sync)

lemma add_in_sync: "reverse_in_sync (cbm_add_mapping s chunk_id c n)"
  by (simp add: reverse_in_sync_def cbm_add_mapping_def cbm_fields)

lemma remove_in_sync: "reverse_in_sync s \<Longrightarrow> reverse_in_sync (cbm_remove_mapping s chunk_id)"
  by (simp add: reverse_in_sync_def cbm_remove_mapping_def cbm_fields)

lemma by_blob_grouped:
  "reverse_in_sync s \<Longrightarrow>
     get_chunk_ids_by_blob s c n = grouped (mapping s) (reverse_key c n)"
  by (simp add: reverse_in_sync_def get_chunk_ids_by_blob_def grouping_def)

section \<open>Removing a chunk\<close>

lemma delete_no_key: "k \<notin> fst ` set (AList.delete k al)"
  by (auto simp: AList.delete_eq)

lemma load_id_map:
  "id_map (cim_load_from_storage s) = stored_id_map (cim_storage s)"
  "stored_id_map (cim_storage (cim_load_from_storage s)) = stored_id_map (cim_storage s)"
  by (auto simp: cim_load_from_storage_def cim_save_to_storage_def stored_id_map_def
      split: stored.splits option.splits)

lemma load_idem: "cim_load_from_storage (cim_load_from_storage s) = cim_load_from_storage s"
  by (auto simp: cim_load_from_storage_def cim_save_to_storage_def split: stored.splits option.splits)

lemma cim_save_stored:
  "stored_id_map (cim_storage (cim_save_to_storage s)) = id_map s"
  "id_map (cim_save_to_storage s) = id_map s"
  by (simp_all add: cim_save_to_storage_def stored_id_map_def)

lemma cim_remove_mapping_gone:
  "chunk_id \<notin> fst ` set (id_map (cim_remove_mapping s chunk_id))"
  "chunk_id \<notin> fst ` set (stored_id_map (cim_storage (cim_remove_mapping s chunk_id)))"
proof -
  let ?s1 = "cim_load_from_storage s"
  show "chunk_id \<notin> fst ` set (id_map (cim_remove_mapping s chunk_id))"
    using delete_no_key[of chunk_id "id_map ?s1"]
    by (simp add: cim_remove_mapping_def Let_def cim_save_stored)
  have "stored_id_map (cim_storage ?s1) = id_map ?s1" by (simp add: load_id_map)
  then show "chunk_id \<notin> fst ` set (stored_id_map (cim_storage (cim_remove_mapping s chunk_id)))"
    using delete_no_key[of chunk_id "id_map ?s1"]
    by (simp add: cim_remove_mapping_def Let_def cim_save_stored)
qed

lemma cbm_remove_mapping_gone:
  "chunk_id \<notin> fst ` set (mapping (cbm_remove_mapping s chunk_id))"
  by (auto simp: cbm_remove_mapping_def cbm_fields delete_no_key)

lemma cbm_remove_mapping_persisted:
  "persisted_in_sync s \<Longrightarrow> persisted_in_sync (cbm_remove_mapping s chunk_id)"
  by (simp add: persisted_in_sync_def cbm_remove_mapping_def cbm_fields stored_mapping_def)

lemma grouped_subset: "set (grouped fwd key) \<subseteq> fst ` set fwd"
  by (auto simp: grouped_def)

lemma remove_from_searchers_calls:
  "map fst (snd (remove_from_searchers brem srch ids))
     = filter (\<lambda>n. n \<in> fst ` set ids) (map fst srch)"
  by (induction srch)
     (auto simp: split_beta map_of_eq_None_iff split: option.splits prod.splits
           dest: map_of_SomeD weak_map_of_SomeI)

lemma remove_from_searchers_names:
  "map fst (fst (remove_from_searchers brem srch ids)) = map fst srch"
  by (induction srch) (auto simp: split_beta split: option.splits prod.splits)

lemma cmm_remove_eq:
  "cmm_remove None None brem s chunk_id =
     (let ids = registered_ids s chunk_id;
          r = remove_from_searchers brem (searchers s) ids
      in (Inr (),
          s\<lparr>searchers := (if ids = [] then searchers s else fst r),
            chunk_id_mapping_manager :=
              cim_remove_mapping (cim_load_from_storage (chunk_id_mapping_manager s)) chunk_id,
            chunk_blob_mapping_manager :=
              cbm_remove_mapping (chunk_blob_mapping_manager s) chunk_id\<rparr>,
          (if ids = [] then [] else snd r)))"
  by (auto simp: cmm_remove_def get_index_ids_def registered_ids_def load_id_map Let_def
      split: option.splits prod.splits)

text \<open>
  C3: with both leases acquired, \<open>remove(chunk_id)\<close> returns without raising whatever the
  backends' \<open>remove\<close> calls do; afterwards the chunk has no entry in the backend-id map (object
  and blob) nor in the source map (object; blob and reverse index too, for an object in sync
  with them); and \<open>remove\<close> was called on every registered backend that has an id for the
  chunk, in registration order, a raising backend not stopping the later ones.
\<close>

theorem remove_tolerates_backend_failures:
  "(case cmm_remove None None brem s chunk_id of
      (result, s', calls) \<Rightarrow>
          result = Inr ()
        \<and> chunk_id \<notin> fst ` set (id_map (chunk_id_mapping_manager s'))
        \<and> chunk_id \<notin> fst ` set (stored_id_map (cim_storage (chunk_id_mapping_manager s')))
        \<and> chunk_id \<notin> fst ` set (mapping (chunk_blob_mapping_manager s'))
        \<and> (persisted_in_sync (chunk_blob_mapping_manager s) \<longrightarrow>
              chunk_id \<notin> fst ` set (stored_mapping (cbm_storage (chunk_blob_mapping_manager s'))))
        \<and> (reverse_in_sync (chunk_blob_mapping_manager s) \<longrightarrow>
              (\<forall>c n. chunk_id \<notin> set (get_chunk_ids_by_blob (chunk_blob_mapping_manager s') c n)))
        \<and> map fst calls
            = filter (\<lambda>name. name \<in> fst ` set (registered_ids s chunk_id)) (map fst (searchers s))
        \<and> map fst (searchers s') = map fst (searchers s))"
proof -
  let ?ids = "registered_ids s chunk_id"
  let ?r = "remove_from_searchers brem (searchers s) ?ids"
  let ?im = "cim_remove_mapping (cim_load_from_storage (chunk_id_mapping_manager s)) chunk_id"
  let ?bm = "cbm_remove_mapping (chunk_blob_mapping_manager s) chunk_id"
  have a: "chunk_id \<notin> fst ` set (id_map ?im)"
    and b: "chunk_id \<notin> fst ` set (stored_id_map (cim_storage ?im))"
    by (rule cim_remove_mapping_gone)+
  have c: "chunk_id \<notin> fst ` set (mapping ?bm)" by (rule cbm_remove_mapping_gone)
  have d: "persisted_in_sync (chunk_blob_mapping_manager s) \<longrightarrow>
              chunk_id \<notin> fst ` set (stored_mapping (cbm_storage ?bm))"
    using cbm_remove_mapping_persisted[of "chunk_blob_mapping_manager s" chunk_id] c
    by (simp add: persisted_in_sync_def)
  have e: "reverse_in_sync (chunk_blob_mapping_manager s) \<longrightarrow>
              (\<forall>c n. chunk_id \<notin> set (get_chunk_ids_by_blob ?bm c n))"
  proof (intro impI allI)
    fix c' n assume "reverse_in_sync (chunk_blob_mapping_manager s)"
    then have "reverse_in_sync ?bm" by (rule remove_in_sync)
    then have "get_chunk_ids_by_blob ?bm c' n = grouped (mapping ?bm) (reverse_key c' n)"
      by (rule by_blob_grouped)
    then show "chunk_id \<notin> set (get_chunk_ids_by_blob ?bm c' n)"
      using c grouped_subset[of "mapping ?bm" "reverse_key c' n"] by auto
  qed
  have f: "map fst (if ?ids = [] then [] else snd ?r)
            = filter (\<lambda>name. name \<in> fst ` set ?ids) (map fst (searchers s))"
    by (simp add: remove_from_searchers_calls)
  have g: "map fst (if ?ids = [] then searchers s else fst ?r) = map fst (searchers s)"
    by (simp add: remove_from_searchers_names)
  show ?thesis
    unfolding cmm_remove_eq Let_def using a b c d e f g by simp
qed

lemma one_chunk_remove:
  "cmm_remove None None failing_keyword one_chunk ''0''
     = (Inr (), no_chunk, [(''keyword'', 0, Some BackendError), (''vector'', 0, None)])"
  by (simp add: cmm_remove_def one_chunk_def no_chunk_def two_backends_def failing_keyword_def
      get_index_ids_def cim_load_from_storage_def cim_remove_mapping_def cim_save_to_storage_def
      cbm_remove_mapping_def cbm_save_to_storage_def update_reverse_mapping_def AList.delete_eq
      Let_def)

theorem remove_tolerates_backend_failures_witness:
  "cmm_remove None None failing_keyword one_chunk ''0''
     = (Inr (), no_chunk, [(''keyword'', 0, Some BackendError), (''vector'', 0, None)])
   \<and> persisted_in_sync (chunk_blob_mapping_manager one_chunk)
   \<and> reverse_in_sync (chunk_blob_mapping_manager one_chunk)
   \<and> ''0'' \<notin> fst ` set (id_map (chunk_id_mapping_manager no_chunk))
   \<and> ''0'' \<notin> fst ` set (mapping (chunk_blob_mapping_manager no_chunk))
   \<and> ''0'' \<notin> set (get_chunk_ids_by_blob (chunk_blob_mapping_manager no_chunk) ''docs'' ''a.pdf'')"
proof -
  have p: "persisted_in_sync (chunk_blob_mapping_manager one_chunk)"
    by (simp add: persisted_in_sync_def one_chunk_def stored_mapping_def)
  have r: "reverse_in_sync (chunk_blob_mapping_manager one_chunk)"
    unfolding reverse_in_sync_def
    by (rule ext) (simp add: one_chunk_def grouping_def grouped_def reverse_key_def)
  from remove_tolerates_backend_failures[where brem = failing_keyword and s = one_chunk
      and chunk_id = "''0''"] p r
  have "''0'' \<notin> fst ` set (id_map (chunk_id_mapping_manager no_chunk))
      \<and> ''0'' \<notin> fst ` set (mapping (chunk_blob_mapping_manager no_chunk))
      \<and> ''0'' \<notin> set (get_chunk_ids_by_blob (chunk_blob_mapping_manager no_chunk) ''docs'' ''a.pdf'')"
    unfolding one_chunk_remove by simp
  then show ?thesis using one_chunk_remove p r by simp
qed

section \<open>Scenario D\<close>

lemma add_to_searchers_ok:
  assumes "backends_accept badd"
  shows "\<exists>ids srch'. add_to_searchers badd srch text acc = (Inr ids, srch')"
proof (induction srch arbitrary: acc)
  case Nil
  then show ?case by simp
next
  case (Cons p srch)
  obtain name mgr where p: "p = (name, mgr)" by (cases p)
  obtain i more mgr' where b: "badd name mgr text = (Inr (i # more), mgr')"
    using assms unfolding backends_accept_def by blast
  obtain ids srch' where r: "add_to_searchers badd srch text (AList.update name i acc) = (Inr ids, srch')"
    using Cons.IH by blast
  show ?case unfolding p by (simp add: b r)
qed

lemma cim_add_mapping_counter:
  "stored_counter (cim_storage (cim_add_mapping s c ids)) = stored_counter (cim_storage s)"
  by (rule add_mapping_counter)

lemma get_new_id_split:
  "get_new_id s = (str_int (stored_counter (cim_storage s)), snd (get_new_id s))"
  using get_new_id_value[of s] by (cases "get_new_id s") simp

lemma cbm_add_mapping_mapping:
  "mapping (cbm_add_mapping s chunk_id c n)
     = AList.update chunk_id \<lparr>container = c, blob = n\<rparr> (mapping s)"
  by (simp add: cbm_add_mapping_def cbm_fields)

lemma cbm_init_fresh: "mapping (cbm_init NotFound) = []"
  by (simp add: cbm_init_def cbm_load_from_storage_def cbm_fields)

lemma add_texts_step:
  assumes "get_new_id (chunk_id_mapping_manager s) = (chunk_id, im1)"
    and "add_to_searchers badd (searchers s) text [] = (Inr index_ids, srch)"
  shows "add_texts badd s bc bn (text # texts) added
           = add_texts badd
               (s\<lparr>searchers := srch,
                  chunk_id_mapping_manager := cim_add_mapping im1 chunk_id index_ids,
                  chunk_blob_mapping_manager :=
                    cbm_add_mapping (chunk_blob_mapping_manager s) chunk_id bc bn\<rparr>)
               bc bn texts (added @ [(chunk_id, text)])"
  using assms by simp

lemma add_two_texts:
  assumes ok: "backends_accept badd"
  shows "\<exists>s'. cmm_add None None badd (cmm_init srch ist NotFound) bc bn [t1, t2]
                 = (Inr [(str_int (stored_counter ist), t1), (str_int (stored_counter ist + 1), t2)], s')
             \<and> get_chunk_ids_by_blob (chunk_blob_mapping_manager s') bc bn
                 = [str_int (stored_counter ist), str_int (stored_counter ist + 1)]"
proof -
  define c where "c = stored_counter ist"
  define s0 where "s0 = (cmm_init srch ist NotFound :: 'a chunk_mapping_manager)"
  define im1 where "im1 = snd (get_new_id (chunk_id_mapping_manager s0))"
  have s0: "searchers s0 = srch" "stored_counter (cim_storage (chunk_id_mapping_manager s0)) = c"
    "mapping (chunk_blob_mapping_manager s0) = []"
    by (simp_all add: s0_def cmm_init_def init_counter c_def cbm_init_fresh)
  have g1: "get_new_id (chunk_id_mapping_manager s0) = (str_int c, im1)"
    using get_new_id_split[of "chunk_id_mapping_manager s0"] by (simp add: s0 im1_def)
  have c1: "stored_counter (cim_storage im1) = c + 1"
    using get_new_id_counter(2)[of "chunk_id_mapping_manager s0"] by (simp add: s0 im1_def)
  obtain ids1 srch1 where a1: "add_to_searchers badd (searchers s0) t1 [] = (Inr ids1, srch1)"
    using add_to_searchers_ok[OF ok] by blast
  define s1 where "s1 = s0\<lparr>searchers := srch1,
                  chunk_id_mapping_manager := cim_add_mapping im1 (str_int c) ids1,
                  chunk_blob_mapping_manager :=
                    cbm_add_mapping (chunk_blob_mapping_manager s0) (str_int c) bc bn\<rparr>"
  have step1: "add_texts badd s0 bc bn [t1, t2] [] = add_texts badd s1 bc bn [t2] [(str_int c, t1)]"
    using add_texts_step[OF g1 a1, of bc bn "[t2]" "[]"] by (simp add: s1_def)
  have s1: "searchers s1 = srch1"
    "stored_counter (cim_storage (chunk_id_mapping_manager s1)) = c + 1"
    "mapping (chunk_blob_mapping_manager s1) = [(str_int c, \<lparr>container = bc, blob = bn\<rparr>)]"
    by (simp_all add: s1_def add_mapping_counter c1 cbm_add_mapping_mapping s0)
  define im2 where "im2 = snd (get_new_id (chunk_id_mapping_manager s1))"
  have g2: "get_new_id (chunk_id_mapping_manager s1) = (str_int (c + 1), im2)"
    using get_new_id_split[of "chunk_id_mapping_manager s1"] by (simp add: s1 im2_def)
  obtain ids2 srch2 where a2: "add_to_searchers badd (searchers s1) t2 [] = (Inr ids2, srch2)"
    using add_to_searchers_ok[OF ok] by blast
  define s2 where "s2 = s1\<lparr>searchers := srch2,
                  chunk_id_mapping_manager := cim_add_mapping im2 (str_int (c + 1)) ids2,
                  chunk_blob_mapping_manager :=
                    cbm_add_mapping (chunk_blob_mapping_manager s1) (str_int (c + 1)) bc bn\<rparr>"
  have step2: "add_texts badd s1 bc bn [t2] [(str_int c, t1)]
                 = (Inr [(str_int c, t1), (str_int (c + 1), t2)], s2)"
    using add_texts_step[OF g2 a2, of bc bn "[]" "[(str_int c, t1)]"] by (simp add: s2_def)
  have r: "cmm_add None None badd s0 bc bn [t1, t2]
             = (Inr [(str_int c, t1), (str_int (c + 1), t2)], s2)"
    by (simp add: cmm_add_def step1 step2 del: add_texts.simps)
  have ne: "str_int c \<noteq> str_int (c + 1)"
    using str_int_inj[of c "c + 1"] by auto
  have m: "mapping (chunk_blob_mapping_manager s2)
             = [(str_int c, \<lparr>container = bc, blob = bn\<rparr>),
                (str_int (c + 1), \<lparr>container = bc, blob = bn\<rparr>)]"
    using ne by (simp add: s2_def cbm_add_mapping_mapping s1)
  have "reverse_in_sync (chunk_blob_mapping_manager s2)"
    by (simp add: s2_def add_in_sync)
  then have "get_chunk_ids_by_blob (chunk_blob_mapping_manager s2) bc bn
               = grouped (mapping (chunk_blob_mapping_manager s2)) (reverse_key bc bn)"
    by (rule by_blob_grouped)
  then have "get_chunk_ids_by_blob (chunk_blob_mapping_manager s2) bc bn
               = [str_int c, str_int (c + 1)]"
    by (simp add: m grouped_def)
  then show ?thesis using r unfolding s0_def c_def by blast
qed

lemma str_int_0: "str_int 0 = ''0''"
  by (simp add: str_int_def digits_small digit_char_def)

lemma str_int_1: "str_int 1 = ''1''"
  by (simp add: str_int_def digits_small digit_char_def)

lemma reverse_key_takeWhile:
  "CHR '':'' \<notin> set c \<Longrightarrow> takeWhile (\<lambda>x. x \<noteq> CHR '':'') (reverse_key c n) = c"
proof -
  assume "CHR '':'' \<notin> set c"
  then have "\<And>x. x \<in> set c \<Longrightarrow> x \<noteq> CHR '':''" by auto
  then have "takeWhile (\<lambda>x. x \<noteq> CHR '':'') (c @ CHR '':'' # n)
               = c @ takeWhile (\<lambda>x. x \<noteq> CHR '':'') (CHR '':'' # n)"
    by (rule takeWhile_append2)
  then show ?thesis by (simp add: reverse_key_def)
qed

lemma reverse_key_inj:
  assumes "CHR '':'' \<notin> set c" and "CHR '':'' \<notin> set c'"
  shows "reverse_key c n = reverse_key c' n' \<longleftrightarrow> c = c' \<and> n = n'"
proof
  assume e: "reverse_key c n = reverse_key c' n'"
  then have "takeWhile (\<lambda>x. x \<noteq> CHR '':'') (reverse_key c n)
           = takeWhile (\<lambda>x. x \<noteq> CHR '':'') (reverse_key c' n')" by simp
  then have "c = c'" using assms by (simp add: reverse_key_takeWhile)
  then show "c = c' \<and> n = n'" using e by (simp add: reverse_key_def)
next
  assume "c = c' \<and> n = n'"
  then show "reverse_key c n = reverse_key c' n'" by simp
qed

lemma grouped_exact:
  assumes "CHR '':'' \<notin> set c" and "colon_free fwd"
  shows "grouped fwd (reverse_key c n)
           = map fst (filter (\<lambda>(chunk_id, info). container info = c \<and> blob info = n) fwd)"
proof -
  have "filter (\<lambda>(chunk_id, info). reverse_key (container info) (blob info) = reverse_key c n) fwd
      = filter (\<lambda>(chunk_id, info). container info = c \<and> blob info = n) fwd"
  proof (rule filter_cong[OF refl])
    fix p assume "p \<in> set fwd"
    then have "CHR '':'' \<notin> set (container (snd p))"
      using assms(2) by (auto simp: colon_free_def list_all_iff)
    then show "(case p of (chunk_id, info) \<Rightarrow> reverse_key (container info) (blob info) = reverse_key c n)
             = (case p of (chunk_id, info) \<Rightarrow> container info = c \<and> blob info = n)"
      using reverse_key_inj[OF _ assms(1), of "container (snd p)" "blob (snd p)" n]
      by (cases p) simp
  qed
  then show ?thesis by (simp add: grouped_def)
qed

text \<open>
  C7: the constructor, a load and \<open>add_mapping\<close> leave the reverse index equal to the
  grouping of the forward map by key, \<open>remove_mapping\<close> keeps it so, and
  \<open>get_chunk_ids_by_blob\<close> then returns the chunk ids with that key in forward-map order:
  for container names without a colon, the chunk ids of exactly that container and blob.
  In particular, on a fresh store with backends that accept the texts,
  \<open>add("docs", "a.pdf", ["t1", "t2"])\<close> returns the chunk ids "0" and "1" and
  \<open>get_chunk_ids_by_blob("docs", "a.pdf")\<close> returns exactly these two, in this order.
\<close>

theorem reverse_index_is_grouping:
  "reverse_in_sync (cbm_init st)
   \<and> reverse_in_sync (cbm_load_from_storage s)
   \<and> reverse_in_sync (cbm_add_mapping s chunk_id c n)
   \<and> (reverse_in_sync s \<longrightarrow> reverse_in_sync (cbm_remove_mapping s chunk_id))
   \<and> (reverse_in_sync s \<longrightarrow> get_chunk_ids_by_blob s c n = grouped (mapping s) (reverse_key c n))
   \<and> (reverse_in_sync s \<and> CHR '':'' \<notin> set c \<and> colon_free (mapping s) \<longrightarrow>
        get_chunk_ids_by_blob s c n
          = map fst (filter (\<lambda>(chunk_id, info). container info = c \<and> blob info = n) (mapping s)))
   \<and> (backends_accept badd \<longrightarrow>
        (\<exists>s'. cmm_add None None badd (cmm_init srch NotFound NotFound) ''docs'' ''a.pdf'' [''t1'', ''t2'']
                 = (Inr [(''0'', ''t1''), (''1'', ''t2'')], s')
             \<and> get_chunk_ids_by_blob (chunk_blob_mapping_manager s') ''docs'' ''a.pdf''
                 = [''0'', ''1'']))"
proof -
  have d: "backends_accept badd \<longrightarrow>
        (\<exists>s'. cmm_add None None badd (cmm_init srch NotFound NotFound) ''docs'' ''a.pdf'' [''t1'', ''t2'']
                 = (Inr [(''0'', ''t1''), (''1'', ''t2'')], s')
             \<and> get_chunk_ids_by_blob (chunk_blob_mapping_manager s') ''docs'' ''a.pdf''
                 = [''0'', ''1''])"
  proof
    assume "backends_accept badd"
    from add_two_texts[OF this, of srch NotFound "''docs''" "''a.pdf''" "''t1''" "''t2''"]
    show "\<exists>s'. cmm_add None None badd (cmm_init srch NotFound NotFound) ''docs'' ''a.pdf'' [''t1'', ''t2'']
                 = (Inr [(''0'', ''t1''), (''1'', ''t2'')], s')
             \<and> get_chunk_ids_by_blob (chunk_blob_mapping_manager s') ''docs'' ''a.pdf''
                 = [''0'', ''1'']"
      by (simp add: stored_counter_def str_int_0 str_int_1)
  qed
  have e: "reverse_in_sync s \<and> CHR '':'' \<notin> set c \<and> colon_free (mapping s) \<longrightarrow>
        get_chunk_ids_by_blob s c n
          = map fst (filter (\<lambda>(chunk_id, info). container info = c \<and> blob info = n) (mapping s))"
    using by_blob_grouped[of s c n] grouped_exact[of c "mapping s" n] by simp
  show ?thesis
    using init_in_sync[of st] load_in_sync[of s] add_in_sync[of s chunk_id c n]
      remove_in_sync[of s chunk_id] by_blob_grouped[of s c n] d e by blast
qed

lemma accepting_backend_accepts: "backends_accept accepting_backend"
  by (simp add: backends_accept_def accepting_backend_def)

lemma one_chunk_in_sync: "reverse_in_sync (chunk_blob_mapping_manager one_chunk)"
  unfolding reverse_in_sync_def
  by (rule ext) (simp add: one_chunk_def grouping_def grouped_def reverse_key_def)

theorem reverse_index_is_grouping_witness:
  "reverse_in_sync (chunk_blob_mapping_manager one_chunk)
   \<and> CHR '':'' \<notin> set ''docs''
   \<and> colon_free (mapping (chunk_blob_mapping_manager one_chunk))
   \<and> backends_accept accepting_backend
   \<and> reverse_in_sync (cbm_remove_mapping (chunk_blob_mapping_manager one_chunk) ''0'')
   \<and> get_chunk_ids_by_blob (chunk_blob_mapping_manager one_chunk) ''docs'' ''a.pdf'' = [''0'']
   \<and> fst (cmm_add None None accepting_backend (cmm_init two_backends NotFound NotFound)
            ''docs'' ''a.pdf'' [''t1'', ''t2''])
       = Inr [(''0'', ''t1''), (''1'', ''t2'')]"
proof -
  note t = reverse_index_is_grouping[where s = "chunk_blob_mapping_manager one_chunk"
      and chunk_id = "''0''" and c = "''docs''" and n = "''a.pdf''"
      and badd = accepting_backend and srch = two_backends and st = NotFound]
  have a: "reverse_in_sync (cbm_remove_mapping (chunk_blob_mapping_manager one_chunk) ''0'')"
    using t one_chunk_in_sync by blast
  have "get_chunk_ids_by_blob (chunk_blob_mapping_manager one_chunk) ''docs'' ''a.pdf''
          = grouped (mapping (chunk_blob_mapping_manager one_chunk)) (reverse_key ''docs'' ''a.pdf'')"
    using t one_chunk_in_sync by blast
  then have b: "get_chunk_ids_by_blob (chunk_blob_mapping_manager one_chunk) ''docs'' ''a.pdf'' = [''0'']"
    by (simp add: one_chunk_def grouped_def reverse_key_def)
  have "\<exists>s'. cmm_add None None accepting_backend (cmm_init two_backends NotFound NotFound)
            ''docs'' ''a.pdf'' [''t1'', ''t2''] = (Inr [(''0'', ''t1''), (''1'', ''t2'')], s')"
    using t accepting_backend_accepts by blast
  then have c: "fst (cmm_add None None accepting_backend (cmm_init two_backends NotFound NotFound)
            ''docs'' ''a.pdf'' [''t1'', ''t2'']) = Inr [(''0'', ''t1''), (''1'', ''t2'')]"
    by auto
  have f: "colon_free (mapping (chunk_blob_mapping_manager one_chunk))"
    by (simp add: colon_free_def one_chunk_def)
  show ?thesis using one_chunk_in_sync accepting_backend_accepts a b c f by simp
qed

lemma issued_example:
  "fst (run_ops (cim_init NotFound)
          [GetNewId, AddMapping ''0'' [(''keyword'', 0)], RemoveMapping ''0'', Restart, GetNewId])
     = [''0'', ''1'']"
proof -
  have "stored_counter (cim_storage (cim_init NotFound)) = 0"
    by (simp add: init_counter) (simp add: stored_counter_def)
  then show ?thesis unfolding run_ops_issued by (simp add: str_int_0 str_int_1)
qed

section \<open>Lease lock: the retry budget\<close>

lemma attempts_lease_error_probes:
  "lease_attempts env mr d a n = (Inl LeaseError, ev) \<Longrightarrow> probes ev = n"
proof (induction n arbitrary: a ev)
  case 0
  then show ?case by (simp add: probes_def)
next
  case (Suc n)
  obtain r ev' where rec: "lease_attempts env mr d (Suc a) n = (r, ev')"
    by (cases "lease_attempts env mr d (Suc a) n")
  from Suc.prems rec have "r = Inl LeaseError \<and>
      ev = GetProperties a # (if int a < mr - 1 then [Sleep d] else []) @ ev'"
    by (auto split: lease_observation.splits option.splits)
  then show ?case using Suc.IH[of "Suc a" ev'] rec by (simp add: probes_def)
qed

lemma attempts_all_leased:
  "\<forall>i. a \<le> i \<and> i < a + n \<longrightarrow> env i = Leased \<Longrightarrow>
     lease_attempts env mr d a n =
       (Inl LeaseError,
        concat (map (\<lambda>i. GetProperties i # (if int i < mr - 1 then [Sleep d] else [])) [a..<a + n]))"
proof (induction n arbitrary: a)
  case 0
  then show ?case by simp
next
  case (Suc n)
  have "env a = Leased" using Suc.prems by simp
  moreover have "\<forall>i. Suc a \<le> i \<and> i < Suc a + n \<longrightarrow> env i = Leased" using Suc.prems by simp
  moreover have "[a..<a + Suc n] = a # [Suc a..<Suc a + n]" by (simp add: upt_conv_Cons)
  ultimately show ?case using Suc.IH[of "Suc a"] by (simp del: upt_Suc)
qed

lemma contended_trace_counts:
  "probes contended_trace = 12" "waits contended_trace = replicate 11 5"
  by (simp_all add: contended_trace_def probes_def waits_def eval_nat_numeral)

lemma default_trace:
  "concat (map (\<lambda>i. GetProperties i # (if int i < 12 - 1 then [Sleep 5] else [])) [0..<0 + 12])
     = contended_trace"
  by (simp add: contended_trace_def eval_nat_numeral)

lemma acquire_lease_contended:
  assumes "\<forall>i<12. env i = Leased"
  shows "acquire_lease (Inr ()) env leases key 12 5 = (Inl LeaseError, leases, contended_trace)"
proof -
  have "\<forall>i. 0 \<le> i \<and> i < 0 + 12 \<longrightarrow> env i = Leased" using assms by simp
  from attempts_all_leased[OF this, of 12 5]
  have "lease_attempts env 12 5 0 12 = (Inl LeaseError, contended_trace)"
    by (simp only: default_trace)
  then show ?thesis by (simp add: acquire_lease_def)
qed

lemma acquire_lease_error_probes:
  assumes "fst (acquire_lease (Inr ()) env leases key max_retries retry_delay) = Inl LeaseError"
  shows "probes (snd (snd (acquire_lease (Inr ()) env leases key max_retries retry_delay)))
           = nat max_retries"
proof -
  obtain r ev where a: "lease_attempts env max_retries retry_delay 0 (nat max_retries) = (r, ev)"
    by (cases "lease_attempts env max_retries retry_delay 0 (nat max_retries)")
  from assms a have "r = Inl LeaseError"
    by (cases r) (simp_all add: acquire_lease_def)
  with a have "probes ev = nat max_retries" using attempts_lease_error_probes by blast
  then show ?thesis using a \<open>r = Inl LeaseError\<close> by (simp add: acquire_lease_def)
qed

text \<open>
  C8: if the resource carries an active lease at each of the twelve attempts, \<open>acquire_lease\<close>
  with the default budget makes twelve attempts with a wait of 5 between consecutive
  attempts, registers nothing and raises the lock-acquisition error; and for every
  environment and every budget, when it raises that error it has made all \<open>max_retries\<close>
  attempts.
\<close>

theorem acquire_lease_retry_budget:
  "((\<forall>i<12. env i = Leased) \<longrightarrow>
       acquire_lease (Inr ()) env leases key 12 5 = (Inl LeaseError, leases, contended_trace)
     \<and> probes contended_trace = 12 \<and> waits contended_trace = replicate 11 5)
   \<and> (fst (acquire_lease (Inr ()) env' leases key max_retries retry_delay) = Inl LeaseError \<longrightarrow>
        probes (snd (snd (acquire_lease (Inr ()) env' leases key max_retries retry_delay)))
          = nat max_retries)"
  using acquire_lease_contended[of env leases key] contended_trace_counts
    acquire_lease_error_probes[of env' leases key max_retries retry_delay]
  by blast

theorem acquire_lease_retry_budget_witness:
  "\<not> (\<exists>i<12. always_leased i \<noteq> Leased)
   \<and> acquire_lease (Inr ()) always_leased Map.empty ''docs/a.pdf'' 12 5
       = (Inl LeaseError, Map.empty,
          [GetProperties 0, Sleep 5, GetProperties 1, Sleep 5, GetProperties 2, Sleep 5,
           GetProperties 3, Sleep 5, GetProperties 4, Sleep 5, GetProperties 5, Sleep 5,
           GetProperties 6, Sleep 5, GetProperties 7, Sleep 5, GetProperties 8, Sleep 5,
           GetProperties 9, Sleep 5, GetProperties 10, Sleep 5, GetProperties 11])
   \<and> fst (acquire_lease (Inr ()) always_leased Map.empty ''docs/a.pdf'' 3 5) = Inl LeaseError
   \<and> probes (snd (snd (acquire_lease (Inr ()) always_leased Map.empty ''docs/a.pdf'' 3 5))) = 3
   \<and> fst (acquire_lease (Inr ()) released_at_third Map.empty ''docs/a.pdf'' 12 5) = Inr ''lease-1''"
proof -
  have h: "\<forall>i<12. always_leased i = Leased" by (simp add: always_leased_def)
  have e: "fst (acquire_lease (Inr ()) always_leased Map.empty ''docs/a.pdf'' 3 5) = Inl LeaseError"
    by (simp add: acquire_lease_def always_leased_def eval_nat_numeral)
  have t: "contended_trace =
          [GetProperties 0, Sleep 5, GetProperties 1, Sleep 5, GetProperties 2, Sleep 5,
           GetProperties 3, Sleep 5, GetProperties 4, Sleep 5, GetProperties 5, Sleep 5,
           GetProperties 6, Sleep 5, GetProperties 7, Sleep 5, GetProperties 8, Sleep 5,
           GetProperties 9, Sleep 5, GetProperties 10, Sleep 5, GetProperties 11]"
    by (simp add: contended_trace_def eval_nat_numeral)
  have r: "fst (acquire_lease (Inr ()) released_at_third Map.empty ''docs/a.pdf'' 12 5) = Inr ''lease-1''"
    by (simp add: acquire_lease_def released_at_third_def eval_nat_numeral)
  note th = acquire_lease_retry_budget[where env = always_leased and env' = always_leased
      and leases = Map.empty and key = "''docs/a.pdf''" and max_retries = 3 and retry_delay = 5]
  have a: "acquire_lease (Inr ()) always_leased Map.empty ''docs/a.pdf'' 12 5
       = (Inl LeaseError, Map.empty, contended_trace)"
    using th h by blast
  have b: "probes (snd (snd (acquire_lease (Inr ()) always_leased Map.empty ''docs/a.pdf'' 3 5))) = 3"
    using th e by simp
  show ?thesis using h a b e r unfolding t by simp
qed

section \<open>Vector index: \<open>stats\<close> and the index argument\<close>

text \<open>
  With an index argument of length other than 0 the constructor keeps the index and assigns
  no \<open>__ndims\<close>, whatever \<open>ndims\<close> and the space are, and \<open>stats\<close> raises \<open>AttributeError\<close>; so it
  is for both loaders when \<open>Index.load\<close> returns such an index, and for an index whose
  vectors are all marked deleted.
\<close>

lemma init_with_vectors:
  assumes "index_len ix \<noteq> 0"
  shows "voyager_init mk (Some ix) ndims st =
           (case space_map st of
              None \<Rightarrow> Inl ValueError
            | Some sp \<Rightarrow> Inr \<lparr>vim_space = sp, vim_index = ix, vim_ndims = None\<rparr>)"
  using assms by (simp add: voyager_init_def Let_def split: option.splits)

lemma stats_raises_for_nonempty_index:
  assumes "index_len ix \<noteq> 0"
  shows "(voyager_init mk (Some ix) ndims st = Inr m \<longrightarrow> stats m = Inl AttributeError)
       \<and> (load_bytes byte_data = Inr ix \<longrightarrow>
            (\<exists>m'. voyager_load_from_byte mk load_bytes byte_data = Inr m'
                 \<and> vim_index m' = ix \<and> stats m' = Inl AttributeError))
       \<and> (load_file file_path = Inr ix \<longrightarrow>
            (\<exists>m'. voyager_load_from_file mk load_file file_path = Inr m'
                 \<and> vim_index m' = ix \<and> stats m' = Inl AttributeError))"
  using assms
  by (auto simp: init_with_vectors voyager_load_from_byte_def voyager_load_from_file_def
      space_map_def stats_def split: option.splits)

lemma stats_raises_for_deleted_vector:
  "voyager_init mk (Some deleted_vector_index) 3072 ''cosine''
     = Inr \<lparr>vim_space = Cosine, vim_index = deleted_vector_index, vim_ndims = None\<rparr>
   \<and> stats \<lparr>vim_space = Cosine, vim_index = deleted_vector_index, vim_ndims = None\<rparr>
     = Inl AttributeError"
  by (simp add: voyager_init_def space_map_def index_len_def deleted_vector_index_def
      one_vector_index_def stats_def Let_def)

text \<open>
  C10, at \<open>VoyagerIndexManager(index=Index(Space.Cosine, num_dimensions=3)).stats\<close>: the index
  argument has length 0 and is falsy, so the constructor does not keep it; it builds a new
  index of 3072 dimensions, assigns \<open>__ndims\<close>, and \<open>stats\<close> of the manager returns.
\<close>

theorem empty_index_argument_replaced:
  "index_len empty_index = 0
   \<and> voyager_init mk (Some empty_index) 3072 ''cosine'' =
       (case mk Cosine 3072 of
          Inl e \<Rightarrow> Inl e
        | Inr fresh \<Rightarrow> Inr \<lparr>vim_space = Cosine, vim_index = fresh, vim_ndims = Some 3072\<rparr>)
   \<and> stats \<lparr>vim_space = Cosine, vim_index = fresh, vim_ndims = Some 3072\<rparr> =
       Inr \<lparr>num_vectors = index_len fresh, num_dimensions = 3072, space_type = Cosine\<rparr>"
  by (simp add: voyager_init_def space_map_def index_len_def empty_index_def stats_def Let_def)

end
